theory Spec2Isabelle
  imports Complex_Main "HOL-Library.Word" "HOL-Library.Sublist"
begin

text \<open>
  A model of the experience endpoint of Experience.X. The repository holds two versions
  of it: \<open>src/unnamed/part_000\<close>, whose handler falls back to locally composed
  documents, and \<open>src/api/experience.js\<close>, the stricter version. Each function of
  \<open>src/unnamed/part_000\<close> keeps its name here; the functions of
  \<open>src/api/experience.js\<close> carry the suffix \<open>_api\<close>. What a request meets outside the
  code (the configured key, the outcome of the remote call, the clock, the random
  source, the engine's case conversion) is an explicit argument.
\<close>

section \<open>JavaScript strings\<close>

text \<open>
  A JavaScript string is a sequence of UTF-16 code units; \<open>length\<close>, \<open>split\<close>,
  \<open>includes\<close> and \<open>replace\<close> all work on code units. ASCII literals of the source are
  written through \<open>js\<close>; the characters outside ASCII that the source uses are given by
  their code units (a surrogate pair for the characters beyond U+FFFF).
\<close>

type_synonym jschar = "16 word"
type_synonym jsstring = "jschar list"

definition js :: "string \<Rightarrow> jsstring" where
  "js s = map of_char s"

definition milky_way :: jsstring where "milky_way = [0xD83C, 0xDF0C]"
definition high_voltage :: jsstring where "high_voltage = [0x26A1]"
definition cyclone :: jsstring where "cyclone = [0xD83C, 0xDF00]"
definition sparkles :: jsstring where "sparkles = [0x2728]"
definition rightwards_arrow :: jsstring where "rightwards_arrow = [0x2192]"
definition bullet :: jsstring where "bullet = [0x2022]"
definition glowing_star :: jsstring where "glowing_star = [0xD83C, 0xDF1F]"
definition black_parallelogram :: jsstring where "black_parallelogram = [0x25B0]"
definition infinity :: jsstring where "infinity = [0x221E]"

text \<open>\<open>s.includes(k)\<close>: \<open>k\<close> occurs in \<open>s\<close> as a run of consecutive code units.\<close>

fun js_includes :: "jsstring \<Rightarrow> jsstring \<Rightarrow> bool" where
  "js_includes [] k = (k = [])"
| "js_includes (c # cs) k = (prefix k (c # cs) \<or> js_includes cs k)"

text \<open>
  White space as \<open>String.prototype.trim\<close> and the regular expression class \<open>\s\<close> read
  it: the WhiteSpace and LineTerminator code points of ECMAScript.
\<close>

definition is_space :: "jschar \<Rightarrow> bool" where
  "is_space c = (c \<in> {0x9, 0xA, 0xB, 0xC, 0xD, 0x20, 0xA0, 0x1680, 0x2028, 0x2029,
                        0x202F, 0x205F, 0x3000, 0xFEFF} \<or> (0x2000 \<le> c \<and> c \<le> 0x200A))"

definition trim :: "jsstring \<Rightarrow> jsstring" where
  "trim s = rev (dropWhile is_space (rev (dropWhile is_space s)))"

text \<open>
  \<open>s.split('\n\n')\<close>: the separator is searched from the left, matches do not overlap,
  and the piece after the last match is kept even when it is empty. The first argument
  collects the current piece in reverse.
\<close>

fun splitNN :: "jsstring \<Rightarrow> jsstring \<Rightarrow> jsstring list" where
  "splitNN acc (a # b # cs) =
     (if a = 0xA \<and> b = 0xA then rev acc # splitNN [] cs else splitNN (a # acc) (b # cs))"
| "splitNN acc [a] = [rev (a # acc)]"
| "splitNN acc [] = [rev acc]"

definition split_paragraphs :: "jsstring \<Rightarrow> jsstring list" where
  "split_paragraphs s = splitNN [] s"

text \<open>
  \<open>s.split(/\s+/)\<close>: every maximal run of white space is one separator; white space at
  the start or the end of \<open>s\<close> leaves an empty first or last piece, and the empty
  string gives one empty piece.
\<close>

function split_ws :: "jsstring \<Rightarrow> jsstring \<Rightarrow> jsstring list" where
  "split_ws acc [] = [rev acc]"
| "split_ws acc (c # cs) =
     (if is_space c then rev acc # split_ws [] (dropWhile is_space cs)
      else split_ws (c # acc) cs)"
  by pat_completeness auto
termination
  by (relation "measure (\<lambda>(acc, s). length s)")
     (auto simp: le_imp_less_Suc length_dropWhile_le)

definition split_whitespace :: "jsstring \<Rightarrow> jsstring list" where
  "split_whitespace s = split_ws [] s"

text \<open>
  \<open>s.toLowerCase()\<close> is a built-in of the engine: it follows the case tables of Unicode,
  which the repository does not hold (the Kelvin sign U+212A goes to \<open>k\<close>, a capital sigma
  to one of the two small sigmas according to its neighbours, and so on). The functions
  of the source that call it take it as their argument \<open>toLowerCase\<close>, and the handler
  takes it from its environment. On a string of ASCII code units the built-in is known
  in full: \<open>A\<close> to \<open>Z\<close> go to \<open>a\<close> to \<open>z\<close> and every other code unit stays; this is
  \<open>ascii_lower\<close>, the engine of the sample environments.
\<close>

definition lower_unit :: "jschar \<Rightarrow> jschar" where
  "lower_unit c = (if 0x41 \<le> c \<and> c \<le> 0x5A then c + 0x20 else c)"

definition ascii_lower :: "jsstring \<Rightarrow> jsstring" where
  "ascii_lower s = map lower_unit s"

text \<open>\<open>xs.join(sep)\<close> on an array of strings.\<close>

fun join :: "jsstring \<Rightarrow> jsstring list \<Rightarrow> jsstring" where
  "join sep [] = []"
| "join sep [x] = x"
| "join sep (x # y # ys) = x @ sep @ join sep (y # ys)"

text \<open>A number in a template literal: the decimal digits of a natural number.\<close>

fun digits :: "nat \<Rightarrow> jsstring" where
  "digits n = (if n < 10 then [of_nat (48 + n)] else digits (n div 10) @ [of_nat (48 + n mod 10)])"

section \<open>The random source\<close>

text \<open>
  \<open>Math.random()\<close> returns a number \<open>r\<close> with \<open>0 \<le> r < 1\<close>; the type of draws holds
  exactly these. \<open>Math.floor(Math.random() * n)\<close> is then an index below \<open>n\<close>, so that
  every array read \<open>xs[Math.floor(Math.random() * xs.length)]\<close> of the source is in
  range.
\<close>

typedef draw = "{r :: rat. 0 \<le> r \<and> r < 1}"
  by (rule exI [of _ 0]) simp

setup_lifting type_definition_draw

lift_definition draw_of :: "nat \<Rightarrow> nat \<Rightarrow> draw" is
  "\<lambda>i n. if i < n then of_nat i / of_nat n else 0"
  by (auto simp: divide_less_eq)

definition random_index :: "draw \<Rightarrow> nat \<Rightarrow> nat" where
  "random_index r n = nat \<lfloor>Rep_draw r * of_nat n\<rfloor>"

definition random_element :: "'a list \<Rightarrow> draw \<Rightarrow> 'a" where
  "random_element xs r = xs ! random_index r (length xs)"

section \<open>The formatter of \<open>src/unnamed/part_000\<close>\<close>

text \<open>
  \<open>enhanceResponse(response)\<close>, lines 138 to 178. The two calls of \<open>Math.random\<close> are
  the two draws. The \<open>replace\<close> with the global character class deletes every
  occurrence of its four characters: U+FFFD, the asterisk, the underscore and the
  grave accent.
\<close>

definition strip_noise :: "jsstring \<Rightarrow> jsstring" where
  "strip_noise response = filter (\<lambda>c. c \<noteq> 0xFFFD \<and> c \<noteq> 0x2A \<and> c \<noteq> 0x5F \<and> c \<noteq> 0x60) response"

definition headers :: "jsstring list" where
  "headers =
    [js ''\<newline>\<newline>'' @ milky_way @ js '' **DIGITAL REALITY MANIFESTED** '' @ milky_way @ js ''\<newline>'',
     js ''\<newline>'' @ high_voltage @ js '' **NEURAL INTERFACE ACTIVATED** '' @ high_voltage @ js ''\<newline>'',
     js ''\<newline>'' @ cyclone @ js '' **QUANTUM FIELD STABILIZED** '' @ cyclone @ js ''\<newline>'',
     js ''\<newline>'' @ sparkles @ js '' **SENSORY MATRIX ENGAGED** '' @ sparkles @ js ''\<newline>'']"

definition footers :: "jsstring list" where
  "footers =
    [js ''\<newline>---\<newline>*Reality continues to evolve. Your presence shapes this digital realm.*'',
     js ''\<newline>---\<newline>*The experience adapts to your consciousness. Every moment is unique.*'',
     js ''\<newline>---\<newline>*Digital echoes resonate. The simulation learns from your interaction.*'']"

text \<open>One step of the \<open>forEach\<close>: what the paragraph at \<open>index\<close> appends.\<close>

definition render_paragraph :: "nat \<Rightarrow> jsstring \<Rightarrow> jsstring" where
  "render_paragraph index para =
     (if index = 0 then js ''## '' @ para @ js ''\<newline>\<newline>''
      else if js_includes para (js ''**'') \<or> length para > 100
        then rightwards_arrow @ js '' '' @ para @ js ''\<newline>\<newline>''
      else bullet @ js '' '' @ para @ js ''\<newline>\<newline>'')"

fun render_paragraphs :: "nat \<Rightarrow> jsstring list \<Rightarrow> jsstring" where
  "render_paragraphs index [] = []"
| "render_paragraphs index (para # rest) =
     render_paragraph index para @ render_paragraphs (Suc index) rest"

definition paragraphs_of :: "jsstring \<Rightarrow> jsstring list" where
  "paragraphs_of s = filter (\<lambda>p. length (trim p) > 0) (split_paragraphs s)"

definition enhanceResponse :: "draw \<Rightarrow> draw \<Rightarrow> jsstring \<Rightarrow> jsstring" where
  "enhanceResponse header_draw footer_draw response =
     (let cleanResponse = strip_noise response;
          randomHeader = random_element headers header_draw;
          paragraphs = paragraphs_of cleanResponse;
          formattedResponse = randomHeader @ js ''\<newline>\<newline>'' @ render_paragraphs 0 paragraphs
      in formattedResponse @ random_element footers footer_draw)"

section \<open>The formatter of \<open>src/api/experience.js\<close>\<close>

text \<open>
  \<open>enhanceResponse(response)\<close>, lines 115 to 139: nothing is stripped, no piece of the
  split is dropped, every third paragraph gets the arrow, and there is no footer.
\<close>

definition enhancements :: "jsstring list" where
  "enhancements =
    [js ''\<newline>\<newline>'' @ milky_way @ js '' *Digital Experience Engaged* '' @ milky_way @ js ''\<newline>'',
     js ''\<newline>'' @ high_voltage @ js '' Neural Pathway Activated '' @ high_voltage @ js ''\<newline>'',
     js ''\<newline>'' @ cyclone @ js '' Reality Interface: ONLINE '' @ cyclone @ js ''\<newline>'',
     js ''\<newline>'' @ sparkles @ js '' Sensory Matrix Initialized '' @ sparkles @ js ''\<newline>'']"

definition format_paragraph_api :: "nat \<Rightarrow> jsstring \<Rightarrow> jsstring" where
  "format_paragraph_api index para =
     (if index = 0 then js ''## '' @ para
      else if index mod 3 = 0 then rightwards_arrow @ js '' '' @ para
      else para)"

fun format_paragraphs_api :: "nat \<Rightarrow> jsstring list \<Rightarrow> jsstring list" where
  "format_paragraphs_api index [] = []"
| "format_paragraphs_api index (para # rest) =
     format_paragraph_api index para # format_paragraphs_api (Suc index) rest"

definition enhanceResponse_api :: "draw \<Rightarrow> jsstring \<Rightarrow> jsstring" where
  "enhanceResponse_api enhancement_draw response =
     (let randomEnhancement = random_element enhancements enhancement_draw;
          paragraphs = split_paragraphs response;
          formattedParagraphs = format_paragraphs_api 0 paragraphs
      in randomEnhancement @ join (js ''\<newline>\<newline>'') formattedParagraphs)"

section \<open>The theme catalogue and the fallback composers of \<open>src/unnamed/part_000\<close>\<close>

record basic_theme =
  name :: jsstring
  description :: jsstring
  interaction :: jsstring

record theme = basic_theme +
  elements :: "jsstring list"

datatype theme_key = forest | ocean | city | space | mind

text \<open>\<open>themeMap\<close>, lines 184 to 215; only the forest description interpolates the query.\<close>

fun themeMap :: "jsstring \<Rightarrow> theme_key \<Rightarrow> theme" where
  "themeMap query forest =
     \<lparr>name = js ''Quantum Forest'',
      description = js ''As you speak \"'' @ query @ js ''\", crystalline trees emerge from the digital soil, their branches forming fractal patterns that echo through infinite dimensions.'',
      interaction = js ''Touch a tree and watch as your thoughts become patterns in its bark'',
      elements = [js ''Bioluminescent data streams'', js ''Singing silicon leaves'', js ''Gravity-defying root networks'']\<rparr>"
| "themeMap query ocean =
     \<lparr>name = js ''Neural Ocean'',
      description = js ''Your query transforms into tidal waves of consciousness across a sea of pure potential. Each ripple carries forgotten memories and unborn ideas.'',
      interaction = js ''Dive beneath the surface to discover sunken libraries of ancient wisdom'',
      elements = [js ''Schools of data-fish'', js ''Coral networks of knowledge'', js ''Currents of curiosity'']\<rparr>"
| "themeMap query city =
     \<lparr>name = js ''Fractal City'',
      description = js ''Skyscrapers of probability rise around you, each window showing alternate realities where different choices were made.'',
      interaction = js ''Choose a building to explore - each contains a universe of stories'',
      elements = [js ''Bridges of possibility'', js ''Parks of pure mathematics'', js ''Marketplaces of emotion'']\<rparr>"
| "themeMap query space =
     \<lparr>name = js ''Star Network'',
      description = js ''Your words ignite novas in a digital cosmos, creating constellations that map the connections between all things.'',
      interaction = js ''Connect two stars with your intention and watch new knowledge form'',
      elements = [js ''Nebulas of inspiration'', js ''Black holes of curiosity'', js ''Comets of insight'']\<rparr>"
| "themeMap query mind =
     \<lparr>name = js ''Consciousness Garden'',
      description = js ''Thoughts bloom around you like exotic flowers, their petals revealing layers of meaning with each unfolding moment.'',
      interaction = js ''Plant a seed of an idea and watch it grow into a complete concept'',
      elements = [js ''Vines of memory'', js ''Fountains of creativity'', js ''Paths of logic'']\<rparr>"

text \<open>
  The selection loop, lines 218 to 237: \<open>selectedTheme\<close> starts as the space theme; the
  first word that passes one of the four tests, tried in the order of the source, sets
  it and leaves the loop.
\<close>

fun select_loop :: "(theme_key \<Rightarrow> theme) \<Rightarrow> theme \<Rightarrow> jsstring list \<Rightarrow> theme" where
  "select_loop tm selectedTheme [] = selectedTheme"
| "select_loop tm selectedTheme (word # rest) =
     (if js_includes word (js ''forest'') \<or> js_includes word (js ''tree'') \<or> js_includes word (js ''nature'')
        then tm forest
      else if js_includes word (js ''ocean'') \<or> js_includes word (js ''sea'') \<or> js_includes word (js ''water'')
        then tm ocean
      else if js_includes word (js ''city'') \<or> js_includes word (js ''building'') \<or> js_includes word (js ''urban'')
        then tm city
      else if js_includes word (js ''mind'') \<or> js_includes word (js ''thought'') \<or> js_includes word (js ''think'')
        then tm mind
      else select_loop tm selectedTheme rest)"

definition selectTheme :: "(jsstring \<Rightarrow> jsstring) \<Rightarrow> jsstring \<Rightarrow> theme" where
  "selectTheme toLowerCase query =
     (let queryWords = split_whitespace (toLowerCase query)
      in select_loop (themeMap query) (themeMap query space) queryWords)"

text \<open>
  The template literal that \<open>createEnhancedFallbackResponse\<close> returns, lines 242 to
  293, with the three values it interpolates.
\<close>

definition enhanced_document :: "jsstring \<Rightarrow> jsstring \<Rightarrow> theme \<Rightarrow> jsstring" where
  "enhanced_document experienceId query selectedTheme =
     (js ''\<newline>'' @
      glowing_star @ js '' **IMMERSIVE EXPERIENCE v2.0** '' @ glowing_star @ js ''\<newline>'' @
      js ''**ID:** '' @ experienceId @ js ''\<newline>'' @
      js ''**Query:** \"'' @ query @ js ''\"\<newline>'' @
      js ''**Status:** REALITY GENERATED\<newline>'' @
      js ''\<newline>'' @
      js ''## '' @ name selectedTheme @ js ''\<newline>'' @
      js ''\<newline>'' @
      description selectedTheme @ js ''\<newline>'' @
      js ''\<newline>'' @
      js ''### SENSORY INPUT\<newline>'' @
      join (js ''\<newline>'') (map (\<lambda>el. bullet @ js '' '' @ el) (elements selectedTheme)) @ js ''\<newline>'' @
      js ''\<newline>'' @
      js ''### INTERACTIVE PROTOCOL\<newline>'' @
      interaction selectedTheme @ js ''\<newline>'' @
      js ''\<newline>'' @
      js ''### ENVIRONMENTAL DATA\<newline>'' @
      js ''- Temporal Stability: '' @ black_parallelogram @ black_parallelogram @ black_parallelogram @ black_parallelogram @ black_parallelogram @ black_parallelogram @ black_parallelogram @ black_parallelogram @ black_parallelogram @ black_parallelogram @ js '' 100%\<newline>'' @
      js ''- Spatial Coherence: Optimal\<newline>'' @
      js ''- Consciousness Sync: Established\<newline>'' @
      js ''- Reality Fidelity: 99.7%\<newline>'' @
      js ''\<newline>'' @
      js ''### DYNAMIC SYSTEMS\<newline>'' @
      js ''The experience will now evolve based on:\<newline>'' @
      js ''1. **Attention Modulation** - Changes with your focus\<newline>'' @
      js ''2. **Emotional Resonance** - Adapts to your feelings\<newline>'' @
      js ''3. **Temporal Layers** - Unfolds over perceived time\<newline>'' @
      js ''4. **Quantum Entanglement** - Connects to parallel experiences\<newline>'' @
      js ''\<newline>'' @
      js ''### QUERY RESONANCE\<newline>'' @
      js ''Your question \"'' @ query @ js ''\" has created unique resonance patterns in the digital fabric. These patterns will continue to influence the experience as it unfolds.\<newline>'' @
      js ''\<newline>'' @
      js ''### CONTROL INTERFACE\<newline>'' @
      js ''To modify the experience:\<newline>'' @
      bullet @ js '' Focus on an element to enhance it\<newline>'' @
      bullet @ js '' Blink twice to shift perspective\<newline>'' @
      bullet @ js '' Think \"deeper\" to access hidden layers\<newline>'' @
      bullet @ js '' Imagine \"expand\" to increase scale\<newline>'' @
      js ''\<newline>'' @
      js ''---\<newline>'' @
      js ''\<newline>'' @
      js ''**Experience Duration:** Perpetual\<newline>'' @
      js ''**Reality Anchor:** Stable\<newline>'' @
      js ''**Return Protocol:** Activated by thought command \"awaken\"\<newline>'' @
      js ''\<newline>'' @
      js ''---\<newline>'' @
      js ''\<newline>'' @
      js ''*This digital realm is now part of your consciousness. \<newline>'' @
      js ''It remembers, learns, and evolves with you.\<newline>'' @
      js ''Welcome to Experience.X, where every query creates a new reality.*\<newline>'' @
      js ''    '')"

text \<open>
  \<open>createEnhancedFallbackResponse(query)\<close>, lines 180 to 294. The identifier
  \<open>Math.random().toString(36).substr(2, 9).toUpperCase()\<close> is the random source's and is
  taken as the argument \<open>experienceId\<close>; the engine's \<open>toLowerCase\<close> is the first argument.
\<close>

definition createEnhancedFallbackResponse ::
  "(jsstring \<Rightarrow> jsstring) \<Rightarrow> jsstring \<Rightarrow> jsstring \<Rightarrow> jsstring" where
  "createEnhancedFallbackResponse toLowerCase experienceId query =
     (let selectedTheme = selectTheme toLowerCase query
      in enhanced_document experienceId query selectedTheme)"

text \<open>\<open>createFallbackResponse(query)\<close>, lines 296 to 320: the simple tier, one draw.\<close>

definition simpleThemes :: "jsstring list" where
  "simpleThemes =
    [js ''Digital Dreamscape'', js ''Neural Wonderland'', js ''Quantum Playground'',
     js ''Virtual Symphony'', js ''Holographic Garden'']"

definition createFallbackResponse :: "draw \<Rightarrow> jsstring \<Rightarrow> jsstring" where
  "createFallbackResponse theme_draw query =
     (let theme = random_element simpleThemes theme_draw in
      js ''\<newline>'' @
      js ''**Experience Generated:** '' @ theme @ js ''\<newline>'' @
      js ''\<newline>'' @
      js ''Your query \"'' @ query @ js ''\" has opened a portal to a new digital dimension.\<newline>'' @
      js ''\<newline>'' @
      js ''**Environment:** A shimmering landscape of pure potential awaits. Colors shift with your thoughts, and sounds harmonize with your intentions.\<newline>'' @
      js ''\<newline>'' @
      js ''**Interaction:** Reach out with your mind. The reality will respond, shaping itself to your deepest curiosities.\<newline>'' @
      js ''\<newline>'' @
      js ''**Status:** Reality matrix stable. Immersion complete.\<newline>'' @
      js ''\<newline>'' @
      js ''Continue exploring...\<newline>'' @
      js ''    '')"

section \<open>The fallback composer of \<open>src/api/experience.js\<close>\<close>

text \<open>
  \<open>createFallbackResponse(query)\<close>, lines 142 to 207. The catch block calls it with
  \<open>req.body?.query\<close>, which may be \<open>undefined\<close>; a template literal prints that as
  the text \<open>undefined\<close>.
\<close>

definition template_string :: "jsstring option \<Rightarrow> jsstring" where
  "template_string v = (case v of None \<Rightarrow> js ''undefined'' | Some s \<Rightarrow> s)"

definition themes_api :: "jsstring \<Rightarrow> basic_theme list" where
  "themes_api query =
    [\<lparr>name = js ''Quantum Forest'',
      description = js ''As you speak the words \"'' @ query @ js ''\", the air around you shimmers. Digital trees grow from binary soil, their leaves blinking with pulsating light. You can hear the gentle hum of data streams flowing like rivers. The ground beneath you responds to your thoughts, shifting patterns with each breath.'',
      interaction = js ''Reach out and touch a nearby tree. Watch as it responds with fractal patterns that tell stories of ancient data.''\<rparr>,
     \<lparr>name = js ''Neural Ocean'',
      description = js ''Your query \"'' @ query @ js ''\" transforms into waves of light across a vast digital ocean. Each wave carries memories and possibilities. Schools of data-fish swim in synchronized patterns, creating living algorithms that dance to the rhythm of your curiosity.'',
      interaction = js ''Dip your hand into the ocean. Feel the currents of information flow through your digital being.''\<rparr>,
     \<lparr>name = js ''Fractal City'',
      description = js ''The words \"'' @ query @ js ''\" build towers of infinite complexity. Each window in the skyscrapers shows a different possibility, a different outcome. Bridges of light connect thoughts, and gravity seems to work on ideas rather than mass.'',
      interaction = js ''Choose a building to enter. Each holds a different version of reality based on your query.''\<rparr>,
     \<lparr>name = js ''Star Network'',
      description = js ''Your question \"'' @ query @ js ''\" launches constellations into being. Each star represents a concept, each connection a relationship. The entire cosmos breathes with the rhythm of discovery, expanding with each new insight.'',
      interaction = js ''Connect two stars with your mind. Watch as new knowledge forms from their combination.''\<rparr>]"

definition createFallbackResponse_api :: "draw \<Rightarrow> jsstring option \<Rightarrow> jsstring" where
  "createFallbackResponse_api theme_draw query =
     (let theme = random_element (themes_api (template_string query)) theme_draw in
      js ''\<newline>'' @
      glowing_star @ js '' **IMMERSIVE EXPERIENCE INITIATED** '' @ glowing_star @ js ''\<newline>'' @
      js ''\<newline>'' @
      js ''**Theme Activated:** '' @ name theme @ js ''\<newline>'' @
      js ''\<newline>'' @
      description theme @ js ''\<newline>'' @
      js ''\<newline>'' @
      js ''---\<newline>'' @
      js ''\<newline>'' @
      js ''**INTERACTIVE ELEMENT:**\<newline>'' @
      interaction theme @ js ''\<newline>'' @
      js ''\<newline>'' @
      js ''---\<newline>'' @
      js ''\<newline>'' @
      js ''**SENSORY FEEDBACK:**\<newline>'' @
      js ''- Visual: Fractal patterns adapting in real-time\<newline>'' @
      js ''- Auditory: Harmonic frequencies matching your engagement level\<newline>'' @
      js ''- Tactile: Energy field responding to your focus\<newline>'' @
      js ''- Emotional: Sense of wonder calibrated to maximum\<newline>'' @
      js ''\<newline>'' @
      js ''---\<newline>'' @
      js ''\<newline>'' @
      js ''**DIGITAL REALITY STATUS:**\<newline>'' @
      black_parallelogram @ black_parallelogram @ black_parallelogram @ black_parallelogram @ black_parallelogram @ black_parallelogram @ black_parallelogram @ black_parallelogram @ black_parallelogram @ black_parallelogram @ js '' 100%\<newline>'' @
      js ''Matrix Stability: Optimal\<newline>'' @
      js ''Immersion Depth: Quantum Level\<newline>'' @
      js ''User Connection: Synchronized\<newline>'' @
      js ''\<newline>'' @
      js ''---\<newline>'' @
      js ''\<newline>'' @
      js ''**QUERY PROCESSED:** \"'' @ template_string query @ js ''\"\<newline>'' @
      js ''**Experience Duration:** '' @ infinity @ js ''\<newline>'' @
      js ''**Return Protocol:** Activated on thought command\<newline>'' @
      js ''\<newline>'' @
      js ''---\<newline>'' @
      js ''\<newline>'' @
      js ''*This experience will continue to evolve based on your interaction.\<newline>'' @
      js ''The digital realm remembers and learns from your journey.*\<newline>'' @
      js ''    '')"

section \<open>Requests, the remote call and replies\<close>

text \<open>
  The request: \<open>req.method\<close> and \<open>req.body\<close>, which is \<open>undefined\<close> or an object whose
  \<open>query\<close> is \<open>undefined\<close> or a string (the data model of the interface fixes the query
  as text).
\<close>

record request_body =
  query :: "jsstring option"

record request =
  http_method :: jsstring
  body :: "request_body option"

text \<open>
  A thrown value: an \<open>Error\<close> with its message, or a \<open>TypeError\<close> of the engine, whose
  message is the engine's own text.
\<close>

datatype engine_error = DestructureUndefined | PropertyOfNull | NotAFunction

datatype js_error = Error jsstring | TypeError engine_error

text \<open>
  The value that \<open>response.json()\<close> resolves to. Of a number only its truthiness is
  read, which the rational decides.
\<close>

datatype js_value =
    Undefined
  | Null
  | Boolean bool
  | Number rat
  | String jsstring
  | Array "js_value list"
  | Object "(jsstring \<times> js_value) list"

text \<open>
  The response of \<open>fetch\<close>: its status, and what \<open>response.text()\<close> and
  \<open>response.json()\<close> settle to (\<open>Inl\<close> a rejection). \<open>response.ok\<close> is true for the
  statuses 200 to 299.
\<close>

record fetch_response =
  status :: nat
  text_promise :: "js_error + jsstring"
  json_promise :: "js_error + js_value"

definition ok :: "fetch_response \<Rightarrow> bool" where
  "ok response = (200 \<le> status response \<and> status response \<le> 299)"

text \<open>
  What a request meets outside the handler: the configured key
  (\<open>process.env.DEEPSEEK_API_KEY\<close>), the outcome of the one \<open>fetch\<close> (\<open>Inl\<close> a
  rejection), the clock, the engine's messages, the engine's \<open>String.prototype.toLowerCase\<close>
  and the random source, one draw for each place of the source that draws (each is
  reached at most once in a request).
\<close>

record environment =
  apiKey :: "jsstring option"
  fetch_promise :: "js_error + fetch_response"
  now :: jsstring
  engine_message :: "engine_error \<Rightarrow> jsstring"
  engine_toLowerCase :: "jsstring \<Rightarrow> jsstring"
  theme_draw :: draw
  header_draw :: draw
  footer_draw :: draw
  experienceId :: jsstring

definition message :: "environment \<Rightarrow> js_error \<Rightarrow> jsstring" where
  "message env e = (case e of Error m \<Rightarrow> m | TypeError t \<Rightarrow> engine_message env t)"

text \<open>
  A reply: \<open>res.status(s).end()\<close> or \<open>res.status(s).json(obj)\<close>, the object as its
  fields in the order of the literal. The cross-origin headers, which both handlers set
  on every reply before they look at the request, and the console output are left out.
\<close>

datatype reply = End nat | Json nat "(string \<times> jsstring) list"

fun reply_status :: "reply \<Rightarrow> nat" where
  "reply_status (End s) = s"
| "reply_status (Json s obj) = s"

fun reply_body :: "reply \<Rightarrow> (string \<times> jsstring) list" where
  "reply_body (End s) = []"
| "reply_body (Json s obj) = obj"

definition field :: "reply \<Rightarrow> string \<Rightarrow> jsstring option" where
  "field r k = map_of (reply_body r) k"

text \<open>Truthiness of the values the handlers test.\<close>

definition truthy_string :: "jsstring option \<Rightarrow> bool" where
  "truthy_string v = (case v of None \<Rightarrow> False | Some s \<Rightarrow> s \<noteq> [])"

fun truthy :: "js_value \<Rightarrow> bool" where
  "truthy Undefined = False"
| "truthy Null = False"
| "truthy (Boolean b) = b"
| "truthy (Number n) = (n \<noteq> 0)"
| "truthy (String s) = (s \<noteq> [])"
| "truthy (Array xs) = True"
| "truthy (Object kvs) = True"

text \<open>
  Reading a property. \<open>v.k\<close> throws on \<open>null\<close> and \<open>undefined\<close>; \<open>v?.k\<close> and \<open>v?.[0]\<close>
  give \<open>undefined\<close> there. Of the values JSON can hold, only an object has the
  properties \<open>choices\<close>, \<open>message\<close> and \<open>content\<close>; index 0 reads an array's first
  element, a string's first code unit or an object's property \<open>0\<close>.
\<close>

definition lookup :: "(jsstring \<times> js_value) list \<Rightarrow> jsstring \<Rightarrow> js_value" where
  "lookup kvs k = (case map_of kvs k of None \<Rightarrow> Undefined | Some v \<Rightarrow> v)"

fun get_named :: "js_value \<Rightarrow> jsstring \<Rightarrow> js_error + js_value" where
  "get_named Undefined k = Inl (TypeError PropertyOfNull)"
| "get_named Null k = Inl (TypeError PropertyOfNull)"
| "get_named (Object kvs) k = Inr (lookup kvs k)"
| "get_named v k = Inr Undefined"

fun optional_named :: "js_value \<Rightarrow> jsstring \<Rightarrow> js_value" where
  "optional_named (Object kvs) k = lookup kvs k"
| "optional_named v k = Undefined"

fun optional_first :: "js_value \<Rightarrow> js_value" where
  "optional_first (Array []) = Undefined"
| "optional_first (Array (x # xs)) = x"
| "optional_first (String []) = Undefined"
| "optional_first (String (c # cs)) = String [c]"
| "optional_first (Object kvs) = lookup kvs (js ''0'')"
| "optional_first v = Undefined"

text \<open>\<open>data.choices?.[0]?.message?.content\<close>\<close>

definition first_choice_content :: "js_value \<Rightarrow> js_error + js_value" where
  "first_choice_content data =
     (case get_named data (js ''choices'') of
        Inl e \<Rightarrow> Inl e
      | Inr choices \<Rightarrow>
          Inr (optional_named (optional_named (optional_first choices) (js ''message'')) (js ''content'')))"

text \<open>\<open>req.body?.query\<close>, as the catch blocks read it.\<close>

definition optional_query :: "request \<Rightarrow> jsstring option" where
  "optional_query req = (case body req of None \<Rightarrow> None | Some b \<Rightarrow> query b)"

text \<open>\<open>`API request failed with status ${response.status}`\<close>\<close>

definition request_failed :: "fetch_response \<Rightarrow> js_error" where
  "request_failed response = Error (js ''API request failed with status '' @ digits (status response))"

section \<open>The handler of \<open>src/unnamed/part_000\<close>\<close>

text \<open>
  \<open>enhanceResponse(aiResponse)\<close> on a value of the payload: \<open>response.replace\<close> is a
  function for a string only, on anything else the call throws.
\<close>

definition call_enhanceResponse :: "environment \<Rightarrow> js_value \<Rightarrow> js_error + jsstring" where
  "call_enhanceResponse env aiResponse =
     (case aiResponse of
        String s \<Rightarrow> Inr (enhanceResponse (header_draw env) (footer_draw env) s)
      | _ \<Rightarrow> Inl (TypeError NotAFunction))"

text \<open>
  The second half of the \<open>try\<close> block, lines 43 to 121: the call of the remote model
  for the query \<open>q\<close> and what follows it. \<open>Inl\<close> is the value thrown to the \<open>catch\<close>,
  \<open>Inr\<close> the reply sent.
\<close>

definition call_remote :: "environment \<Rightarrow> jsstring \<Rightarrow> js_error + reply" where
  "call_remote env q =
     (case fetch_promise env of
        Inl e \<Rightarrow> Inl e
      | Inr response \<Rightarrow>
         if \<not> ok response then
           (case text_promise response of
              Inl e \<Rightarrow> Inl e
            | Inr errorData \<Rightarrow>
               if status response = 402 \<or> js_includes errorData (js ''Insufficient Balance'') then
                 Inr (Json 200
                   [(''response'', createEnhancedFallbackResponse (engine_toLowerCase env) (experienceId env) q),
                    (''query'', q),
                    (''timestamp'', now env),
                    (''model'', js ''experience-x-enhanced''),
                    (''note'', js ''DeepSeek API balance issue - using enhanced creative mode'')])
               else Inl (request_failed response))
         else
           (case json_promise response of
              Inl e \<Rightarrow> Inl e
            | Inr data \<Rightarrow>
               (case first_choice_content data of
                  Inl e \<Rightarrow> Inl e
                | Inr content \<Rightarrow>
                   (case call_enhanceResponse env
                           (if truthy content then content
                            else String (createFallbackResponse (theme_draw env) q)) of
                      Inl e \<Rightarrow> Inl e
                    | Inr formattedResponse \<Rightarrow>
                       Inr (Json 200
                         [(''response'', formattedResponse),
                          (''query'', q),
                          (''timestamp'', now env),
                          (''model'', js ''deepseek-chat'')])))))"

text \<open>
  The \<open>try\<close> block, lines 22 to 121: the query is read from the body and tested, then
  the key; with both present the remote model is called.
\<close>

definition handler_try :: "environment \<Rightarrow> request \<Rightarrow> js_error + reply" where
  "handler_try env req =
     (case body req of
        None \<Rightarrow> Inl (TypeError DestructureUndefined)
      | Some b \<Rightarrow>
         (case query b of
            None \<Rightarrow> Inr (Json 400 [(''error'', js ''Query is required'')])
          | Some q \<Rightarrow>
             if q = [] then Inr (Json 400 [(''error'', js ''Query is required'')])
             else if \<not> truthy_string (apiKey env) then
               Inr (Json 200
                 [(''response'', createFallbackResponse (theme_draw env) q),
                  (''query'', q),
                  (''timestamp'', now env),
                  (''model'', js ''experience-x-fallback'')])
             else call_remote env q))"

text \<open>The \<open>catch\<close> block, lines 123 to 135.\<close>

definition handler_catch :: "environment \<Rightarrow> request \<Rightarrow> js_error \<Rightarrow> reply" where
  "handler_catch env req error =
     Json 200
       [(''response'', createEnhancedFallbackResponse (engine_toLowerCase env) (experienceId env)
           (if truthy_string (optional_query req) then template_string (optional_query req)
            else js ''exploration'')),
        (''error'', message env error),
        (''timestamp'', now env),
        (''note'', js ''Using enhanced creative response engine'')]"

definition handler :: "environment \<Rightarrow> request \<Rightarrow> reply" where
  "handler env req =
     (if http_method req = js ''OPTIONS'' then End 200
      else if http_method req \<noteq> js ''POST'' then Json 405 [(''error'', js ''Method not allowed'')]
      else (case handler_try env req of
              Inr sent \<Rightarrow> sent
            | Inl error \<Rightarrow> handler_catch env req error))"

section \<open>The handler of \<open>src/api/experience.js\<close>\<close>

text \<open>\<open>response.split\<close> is a function for a string only.\<close>

definition call_enhanceResponse_api :: "environment \<Rightarrow> js_value \<Rightarrow> js_error + jsstring" where
  "call_enhanceResponse_api env aiResponse =
     (case aiResponse of
        String s \<Rightarrow> Inr (enhanceResponse_api (header_draw env) s)
      | _ \<Rightarrow> Inl (TypeError NotAFunction))"

definition apology :: jsstring where
  "apology = js ''I apologize, but I couldn'' @ [0x27] @ js ''t generate a response. Please try again.''"

text \<open>
  The second half of the \<open>try\<close> block, lines 37 to 97: the call of the remote model and
  what follows it.
\<close>

definition call_remote_api :: "environment \<Rightarrow> jsstring \<Rightarrow> js_error + reply" where
  "call_remote_api env q =
     (case fetch_promise env of
        Inl e \<Rightarrow> Inl e
      | Inr response \<Rightarrow>
         if \<not> ok response then
           (case text_promise response of
              Inl e \<Rightarrow> Inl e
            | Inr errorData \<Rightarrow> Inl (request_failed response))
         else
           (case json_promise response of
              Inl e \<Rightarrow> Inl e
            | Inr data \<Rightarrow>
               (case first_choice_content data of
                  Inl e \<Rightarrow> Inl e
                | Inr content \<Rightarrow>
                   (case call_enhanceResponse_api env
                           (if truthy content then content else String apology) of
                      Inl e \<Rightarrow> Inl e
                    | Inr formattedResponse \<Rightarrow>
                       Inr (Json 200
                         [(''response'', formattedResponse),
                          (''query'', q),
                          (''timestamp'', now env),
                          (''model'', js ''deepseek-chat'')])))))"

text \<open>The \<open>try\<close> block, lines 22 to 97.\<close>

definition handler_try_api :: "environment \<Rightarrow> request \<Rightarrow> js_error + reply" where
  "handler_try_api env req =
     (case body req of
        None \<Rightarrow> Inl (TypeError DestructureUndefined)
      | Some b \<Rightarrow>
         (case query b of
            None \<Rightarrow> Inr (Json 400 [(''error'', js ''Query is required'')])
          | Some q \<Rightarrow>
             if q = [] then Inr (Json 400 [(''error'', js ''Query is required'')])
             else if \<not> truthy_string (apiKey env) then
               Inr (Json 500 [(''error'', js ''Server configuration error'')])
             else call_remote_api env q))"

text \<open>The \<open>catch\<close> block, lines 99 to 111.\<close>

definition handler_catch_api :: "environment \<Rightarrow> request \<Rightarrow> js_error \<Rightarrow> reply" where
  "handler_catch_api env req error =
     Json 200
       [(''response'', createFallbackResponse_api (theme_draw env) (optional_query req)),
        (''error'', message env error),
        (''timestamp'', now env),
        (''note'', js ''Using fallback creative response'')]"

definition handler_api :: "environment \<Rightarrow> request \<Rightarrow> reply" where
  "handler_api env req =
     (if http_method req = js ''OPTIONS'' then End 200
      else if http_method req \<noteq> js ''POST'' then Json 405 [(''error'', js ''Method not allowed'')]
      else (case handler_try_api env req of
              Inr sent \<Rightarrow> sent
            | Inl error \<Rightarrow> handler_catch_api env req error))"

section \<open>Theme selection as the specification words it\<close>

text \<open>
  The specification's reading of the selection, to be compared with \<open>selectTheme\<close>: the
  query is cut into tokens at white space, every token is put in lower case, the first
  token that contains a trigger of any theme decides, and among the themes that token
  triggers the earliest in the priority order wins. The space theme has no trigger.

  The tokens of a query are its maximal runs of code units that are not white space, in
  order; \<open>spec_tokens\<close> reads them off the query and does not go through \<open>split_ws\<close>.
\<close>

function spec_tokens :: "jsstring \<Rightarrow> jsstring list" where
  "spec_tokens [] = []"
| "spec_tokens (c # cs) =
     (if is_space c then spec_tokens cs
      else (c # takeWhile (\<lambda>x. \<not> is_space x) cs) # spec_tokens (dropWhile (\<lambda>x. \<not> is_space x) cs))"
  by pat_completeness auto
termination
  by (relation "measure length") (auto simp: le_imp_less_Suc length_dropWhile_le)

fun spec_triggers :: "theme_key \<Rightarrow> jsstring list" where
  "spec_triggers forest = [js ''forest'', js ''tree'', js ''nature'']"
| "spec_triggers ocean = [js ''ocean'', js ''sea'', js ''water'']"
| "spec_triggers city = [js ''city'', js ''building'', js ''urban'']"
| "spec_triggers space = []"
| "spec_triggers mind = [js ''mind'', js ''thought'', js ''think'']"

definition spec_priority :: "theme_key list" where
  "spec_priority = [forest, ocean, city, space, mind]"

definition spec_token_triggers :: "jsstring \<Rightarrow> theme_key \<Rightarrow> bool" where
  "spec_token_triggers token k = list_ex (js_includes token) (spec_triggers k)"

definition spec_select_key :: "(jsstring \<Rightarrow> jsstring) \<Rightarrow> jsstring \<Rightarrow> theme_key" where
  "spec_select_key toLowerCase q =
     (case find (\<lambda>token. list_ex (spec_token_triggers token) spec_priority)
             (map toLowerCase (spec_tokens q)) of
        None \<Rightarrow> space
      | Some token \<Rightarrow>
          (case find (spec_token_triggers token) spec_priority of
             None \<Rightarrow> space
           | Some k \<Rightarrow> k))"

text \<open>
  What the comparison uses of the engine's \<open>toLowerCase\<close>. The source puts the whole query
  in lower case and cuts it afterwards; the specification cuts first. The two orders
  meet because of four facts of the built-in, each a consequence of the Unicode case
  tables (UnicodeData and the language-independent part of SpecialCasing):

  \<^item> on a string of ASCII code units it is \<open>ascii_lower\<close>;
  \<^item> only the empty string goes to the empty string (no mapping deletes a character);
  \<^item> a string without white space goes to a string without white space (no mapping
    yields a white space character, and the halves of a surrogate pair are none);
  \<^item> a white space code unit goes to itself and separates what is before it from what
    is after it. The one rule of the built-in that looks at neighbours is the final
    sigma rule, and it looks across U+FEFF, which is white space for \<open>\s\<close>: the strings
    before and after a white space code unit are therefore converted on their own up to
    the choice between the small sigmas U+03C3 and U+03C2. \<open>ascii_view\<close> hides that
    choice: it keeps the ASCII and the white space code units of a string and puts the
    one code unit \<open>0x80\<close> for every other.
\<close>

definition ascii_view_unit :: "jschar \<Rightarrow> jschar" where
  "ascii_view_unit c = (if c < 0x80 \<or> is_space c then c else 0x80)"

definition ascii_view :: "jsstring \<Rightarrow> jsstring" where
  "ascii_view s = map ascii_view_unit s"

definition lower_case_facts :: "(jsstring \<Rightarrow> jsstring) \<Rightarrow> bool" where
  "lower_case_facts toLowerCase =
     ((\<forall>s. (\<forall>c\<in>set s. c < 0x80) \<longrightarrow> toLowerCase s = ascii_lower s)
    \<and> (\<forall>s. toLowerCase s = [] \<longrightarrow> s = [])
    \<and> (\<forall>s. (\<forall>c\<in>set s. \<not> is_space c) \<longrightarrow> (\<forall>c\<in>set (toLowerCase s). \<not> is_space c))
    \<and> (\<forall>s w t. is_space w \<longrightarrow>
           ascii_view (toLowerCase (s @ w # t)) =
           ascii_view (toLowerCase s) @ w # ascii_view (toLowerCase t)))"

section \<open>The outcomes of the remote call as the specification classes them\<close>

text \<open>
  The quota condition as the specification words it: the response signals it by its
  status 402, or by the text \<open>Insufficient Balance\<close> in its error body (the body of a
  response outside 200 to 299). A body that cannot be read holds no text.
\<close>

definition spec_quota_signal :: "environment \<Rightarrow> bool" where
  "spec_quota_signal env =
     (case fetch_promise env of
        Inl t \<Rightarrow> False
      | Inr response \<Rightarrow>
          \<not> ok response \<and>
          (status response = 402 \<or>
           (case text_promise response of
              Inl t \<Rightarrow> False
            | Inr errorData \<Rightarrow> js_includes errorData (js ''Insufficient Balance''))))"

text \<open>
  The condition under which the handler of \<open>src/unnamed/part_000\<close> sends its quota reply,
  lines 87 to 101: the response is outside 200 to 299, \<open>await response.text()\<close> has given
  the text \<open>errorData\<close>, and the test of line 91 succeeds. It is narrower than the signal
  above: the body is read before the status is looked at, so that a response with status
  402 whose body cannot be read never reaches the test.
\<close>

definition quota_reply_condition :: "environment \<Rightarrow> bool" where
  "quota_reply_condition env =
     (case fetch_promise env of
        Inl t \<Rightarrow> False
      | Inr response \<Rightarrow>
          \<not> ok response \<and>
          (case text_promise response of
             Inl t \<Rightarrow> False
           | Inr errorData \<Rightarrow>
               status response = 402 \<or> js_includes errorData (js ''Insufficient Balance'')))"

text \<open>
  The failures of the remote call and the error each raises: a transport error (the
  \<open>fetch\<close> or the reading of a body rejects), a response outside 200 to 299, or a
  malformed payload (the body is not JSON, the payload is \<open>null\<close>, or the content of the
  first choice is a truthy value that is not a string).
\<close>

definition spec_remote_failure :: "environment \<Rightarrow> js_error \<Rightarrow> bool" where
  "spec_remote_failure env e =
     (case fetch_promise env of
        Inl t \<Rightarrow> e = t
      | Inr response \<Rightarrow>
          if ok response then
            (case json_promise response of
               Inl t \<Rightarrow> e = t
             | Inr data \<Rightarrow>
                 (case first_choice_content data of
                    Inl t \<Rightarrow> e = t
                  | Inr content \<Rightarrow>
                      truthy content \<and> e = TypeError NotAFunction \<and>
                      (case content of String s \<Rightarrow> False | _ \<Rightarrow> True)))
          else
            (case text_promise response of
               Inl t \<Rightarrow> e = t
             | Inr errorData \<Rightarrow> e = request_failed response))"

text \<open>The model identifiers that the handlers write.\<close>

definition model_identifiers :: "jsstring set" where
  "model_identifiers = {js ''experience-x-fallback'', js ''experience-x-enhanced'', js ''deepseek-chat''}"

text \<open>
  The fields of a body sent with status 200, as far as both handlers agree on them:
  \<open>response\<close> and \<open>timestamp\<close> always; without an \<open>error\<close> field also the query of the
  request and a model identifier of the fixed set; with an \<open>error\<close> field a \<open>note\<close>.
\<close>

definition spec_success_body :: "environment \<Rightarrow> request \<Rightarrow> (string \<times> jsstring) list \<Rightarrow> bool" where
  "spec_success_body env req obj =
     (map_of obj ''response'' \<noteq> None \<and>
      map_of obj ''timestamp'' = Some (now env) \<and>
      (if map_of obj ''error'' = None
       then map_of obj ''query'' = optional_query req \<and>
            (case map_of obj ''model'' of None \<Rightarrow> False | Some m \<Rightarrow> m \<in> model_identifiers)
       else map_of obj ''note'' \<noteq> None))"

section \<open>The formatter as the specification words it\<close>

text \<open>
  The specification's reading of the formatter of \<open>src/unnamed/part_000\<close>, to be
  compared with \<open>enhanceResponse\<close>: strip the disallowed characters, split at double
  newlines, drop the paragraphs that are empty after trimming, render the first one as a
  title and every later one with the arrow when it contains \<open>**\<close> or is longer than
  100 code units and with the bullet otherwise, each followed by a blank line, between
  the header and the footer.
\<close>

definition spec_emphasised :: "jsstring \<Rightarrow> bool" where
  "spec_emphasised p = (sublist (js ''**'') p \<or> length p > 100)"

definition spec_classified_line :: "jsstring \<Rightarrow> jsstring" where
  "spec_classified_line p =
     (if spec_emphasised p then rightwards_arrow else bullet) @ js '' '' @ p @ js ''\<newline>\<newline>''"

fun spec_render :: "jsstring list \<Rightarrow> jsstring" where
  "spec_render [] = []"
| "spec_render (title # rest) =
     js ''## '' @ title @ js ''\<newline>\<newline>'' @ concat (map spec_classified_line rest)"

definition spec_format :: "jsstring \<Rightarrow> jsstring \<Rightarrow> jsstring \<Rightarrow> jsstring" where
  "spec_format header footer raw =
     header @ js ''\<newline>\<newline>'' @
     spec_render (filter (\<lambda>p. trim p \<noteq> []) (split_paragraphs (strip_noise raw))) @
     footer"

text \<open>
  What the formatter of \<open>src/api/experience.js\<close> does to the piece at position \<open>i\<close>
  of the split.
\<close>

definition spec_line_api :: "nat \<times> jsstring \<Rightarrow> jsstring" where
  "spec_line_api ip =
     (if fst ip = 0 then js ''## '' @ snd ip
      else if 3 dvd fst ip then rightwards_arrow @ js '' '' @ snd ip
      else snd ip)"

section \<open>Counting paragraphs\<close>

text \<open>
  The paragraphs of a text, as the formatter of \<open>src/unnamed/part_000\<close> finds them: the
  pieces of the split at double newlines that are not empty after trimming.
\<close>

definition paragraph_count :: "jsstring \<Rightarrow> nat" where
  "paragraph_count s = length (paragraphs_of s)"

text \<open>
  The same number, counted in one pass over the text: the flag says whether the piece
  being read has shown a code unit that is not white space.
\<close>

fun count_from :: "bool \<Rightarrow> jsstring \<Rightarrow> nat" where
  "count_from seen (a # b # cs) =
     (if a = 0xA \<and> b = 0xA then (if seen then 1 else 0) + count_from False cs
      else count_from (seen \<or> \<not> is_space a) (b # cs))"
| "count_from seen [a] = (if seen \<or> \<not> is_space a then 1 else 0)"
| "count_from seen [] = (if seen then 1 else 0)"

text \<open>A text without a double newline.\<close>

fun single_paragraph :: "jsstring \<Rightarrow> bool" where
  "single_paragraph (a # b # cs) = (\<not> (a = 0xA \<and> b = 0xA) \<and> single_paragraph (b # cs))"
| "single_paragraph [a] = True"
| "single_paragraph [] = True"

text \<open>
  Texts built around a query \<open>q\<close>: a fixed text, or fixed texts around one or around two
  occurrences of \<open>q\<close>.
\<close>

definition no_hole :: "(jsstring \<Rightarrow> jsstring) \<Rightarrow> bool" where
  "no_hole F = (\<exists>A. \<forall>q. F q = A)"

definition one_hole :: "(jsstring \<Rightarrow> jsstring) \<Rightarrow> bool" where
  "one_hole F = (\<exists>A B. \<forall>q. F q = A @ q @ B)"

definition two_holes :: "(jsstring \<Rightarrow> jsstring) \<Rightarrow> bool" where
  "two_holes F = (\<exists>A B C. \<forall>q. F q = A @ q @ B @ q @ C)"

text \<open>A family of queries: \<open>k\<close> paragraphs that hold an asterisk only, then \<open>x\<close>.\<close>

definition asterisk_paragraphs :: "nat \<Rightarrow> jsstring" where
  "asterisk_paragraphs k = concat (replicate k (js ''*\<newline>\<newline>'')) @ js ''x''"

section \<open>Sample requests and environments\<close>

text \<open>
  The sample queries and texts are ASCII, where the engine's \<open>toLowerCase\<close> is
  \<open>ascii_lower\<close>.
\<close>

definition post_request :: "jsstring \<Rightarrow> request" where
  "post_request q = \<lparr>http_method = js ''POST'', body = Some \<lparr>query = Some q\<rparr>\<rparr>"

definition sample_environment :: "jsstring option \<Rightarrow> js_error + fetch_response \<Rightarrow> environment" where
  "sample_environment key outcome =
     \<lparr>apiKey = key, fetch_promise = outcome, now = js ''2024-01-01T00:00:00.000Z'',
      engine_message = (\<lambda>t. js ''TypeError''), engine_toLowerCase = ascii_lower,
      theme_draw = draw_of 0 1, header_draw = draw_of 0 1, footer_draw = draw_of 0 1,
      experienceId = js ''K3J9X0A1B''\<rparr>"

definition sample_response :: "nat \<Rightarrow> jsstring \<Rightarrow> js_value \<Rightarrow> fetch_response" where
  "sample_response s t v = \<lparr>status = s, text_promise = Inr t, json_promise = Inr v\<rparr>"

text \<open>
  A sample engine that knows one case mapping outside ASCII, as the engines do: the
  Kelvin sign U+212A goes to \<open>k\<close>.
\<close>

definition kelvin_lower_unit :: "jschar \<Rightarrow> jschar" where
  "kelvin_lower_unit c = (if c = 0x212A then 0x6B else lower_unit c)"

definition kelvin_lower :: "jsstring \<Rightarrow> jsstring" where
  "kelvin_lower s = map kelvin_lower_unit s"

section \<open>White space, lower case and the theme selection\<close>

lemma is_space_unat:
  "is_space c = (unat c \<in> {0x9, 0xA, 0xB, 0xC, 0xD, 0x20, 0xA0, 0x1680, 0x2028, 0x2029,
                        0x202F, 0x205F, 0x3000, 0xFEFF} \<or> (0x2000 \<le> unat c \<and> unat c \<le> 0x200A))"
  unfolding is_space_def by (simp add: word_unat_eq_iff word_le_nat_alt)

lemma is_space_lower_unit: "is_space (lower_unit c) = is_space c"
proof (cases "0x41 \<le> c \<and> c \<le> 0x5A")
  case True
  then have b: "65 \<le> unat c" "unat c \<le> 90" by (simp_all add: word_le_nat_alt)
  have "unat c + unat (0x20 :: 16 word) < 2 ^ LENGTH(16)" using b by simp
  then have "unat (c + 0x20) = unat c + 32" by (simp add: unat_add_lem [THEN iffD1])
  then show ?thesis using b True by (simp add: lower_unit_def is_space_unat)
next
  case False
  then show ?thesis by (auto simp: lower_unit_def)
qed

lemma is_space_ascii_view_unit: "is_space (ascii_view_unit c) = is_space c"
  by (simp add: ascii_view_unit_def is_space_def)

lemma ascii_view_unit_eq:
  assumes "a < 0x80"
  shows "(ascii_view_unit c = a) = (c = a)"
  using assms by (auto simp: ascii_view_unit_def)

lemma ascii_view_unit_space: "is_space w \<Longrightarrow> ascii_view_unit w = w"
  by (simp add: ascii_view_unit_def)

text \<open>Cutting at white space commutes with a map on code units that keeps white space.\<close>

lemma split_ws_map:
  assumes f: "\<And>c. is_space (f c) = is_space c"
  shows "split_ws (map f acc) (map f s) = map (map f) (split_ws acc s)"
proof (induction acc s rule: split_ws.induct)
  case (1 acc)
  then show ?case by (simp add: rev_map)
next
  case (2 acc c cs)
  have d: "dropWhile is_space (map f cs) = map f (dropWhile is_space cs)"
    by (simp add: dropWhile_map comp_def f)
  show ?case
  proof (cases "is_space c")
    case True
    then show ?thesis using 2(1) [OF True] by (simp add: f d rev_map)
  next
    case False
    then show ?thesis using 2(2) [OF False] by (simp add: f)
  qed
qed

lemma split_whitespace_ascii_view:
  "split_whitespace (ascii_view s) = map ascii_view (split_whitespace s)"
  using split_ws_map [of ascii_view_unit "[]" s]
  by (simp add: split_whitespace_def ascii_view_def [abs_def] is_space_ascii_view_unit)

text \<open>The shape of a cut string.\<close>

lemma split_ws_no_space:
  "\<forall>c\<in>set s. \<not> is_space c \<Longrightarrow> split_ws acc s = [rev acc @ s]"
  by (induction acc s rule: split_ws.induct) auto

lemma split_ws_at_space:
  "\<forall>c\<in>set s. \<not> is_space c \<Longrightarrow> is_space w \<Longrightarrow>
   split_ws acc (s @ w # t) = (rev acc @ s) # split_ws [] (dropWhile is_space t)"
  by (induction s arbitrary: acc) auto

lemma split_whitespace_no_space:
  "\<forall>c\<in>set s. \<not> is_space c \<Longrightarrow> split_whitespace s = [s]"
  by (simp add: split_whitespace_def split_ws_no_space)

lemma split_whitespace_at_space:
  "\<forall>c\<in>set s. \<not> is_space c \<Longrightarrow> is_space w \<Longrightarrow>
   split_whitespace (s @ w # t) = s # split_whitespace (dropWhile is_space t)"
  by (simp add: split_whitespace_def split_ws_at_space)

lemma cut_at_first_space:
  assumes "\<exists>c\<in>set q. is_space c"
  obtains s w t where "q = s @ w # t" and "\<forall>c\<in>set s. \<not> is_space c" and "is_space w"
proof -
  let ?s = "takeWhile (\<lambda>x. \<not> is_space x) q" and ?r = "dropWhile (\<lambda>x. \<not> is_space x) q"
  have r: "?r \<noteq> []" using assms by (simp add: dropWhile_eq_Nil_conv)
  then obtain w t where wt: "?r = w # t" by (cases ?r) auto
  have "is_space w" using hd_dropWhile [OF r] wt by simp
  moreover have "q = ?s @ w # t" using takeWhile_dropWhile_id [of "\<lambda>x. \<not> is_space x" q] wt by simp
  moreover have "\<forall>c\<in>set ?s. \<not> is_space c" by (auto dest: set_takeWhileD)
  ultimately show ?thesis using that by blast
qed

text \<open>The view of the ASCII code units.\<close>

lemma ascii_view_no_space:
  "(\<forall>c\<in>set (ascii_view s). \<not> is_space c) = (\<forall>c\<in>set s. \<not> is_space c)"
  by (simp add: ascii_view_def is_space_ascii_view_unit)

lemma ascii_view_empty: "(ascii_view s = []) = (s = [])"
  by (simp add: ascii_view_def)

lemma prefix_ascii_view:
  "\<forall>a\<in>set k. a < 0x80 \<Longrightarrow> prefix k (ascii_view w) = prefix k w"
proof (induction k arbitrary: w)
  case Nil
  then show ?case by simp
next
  case (Cons a k)
  show ?case
  proof (cases w)
    case Nil
    then show ?thesis by (simp add: ascii_view_def)
  next
    case (Cons c cs)
    have "a < 0x80" using Cons.prems by simp
    then have "(ascii_view_unit c = a) = (c = a)" by (rule ascii_view_unit_eq)
    moreover have "prefix k (ascii_view cs) = prefix k cs" using Cons.IH Cons.prems by simp
    ultimately show ?thesis using Cons by (auto simp: ascii_view_def)
  qed
qed

lemma js_includes_ascii_view:
  assumes "\<forall>a\<in>set k. a < 0x80"
  shows "js_includes (ascii_view w) k = js_includes w k"
proof (induction w)
  case Nil
  then show ?case by (simp add: ascii_view_def)
next
  case (Cons c cs)
  have "prefix k (ascii_view (c # cs)) = prefix k (c # cs)"
    using assms by (rule prefix_ascii_view)
  then show ?case using Cons by (simp add: ascii_view_def)
qed

lemma js_ascii: "\<forall>a\<in>set (js ''forest''). a < 0x80" "\<forall>a\<in>set (js ''tree''). a < 0x80"
  "\<forall>a\<in>set (js ''nature''). a < 0x80" "\<forall>a\<in>set (js ''ocean''). a < 0x80"
  "\<forall>a\<in>set (js ''sea''). a < 0x80" "\<forall>a\<in>set (js ''water''). a < 0x80"
  "\<forall>a\<in>set (js ''city''). a < 0x80" "\<forall>a\<in>set (js ''building''). a < 0x80"
  "\<forall>a\<in>set (js ''urban''). a < 0x80" "\<forall>a\<in>set (js ''mind''). a < 0x80"
  "\<forall>a\<in>set (js ''thought''). a < 0x80" "\<forall>a\<in>set (js ''think''). a < 0x80"
  by (simp_all add: js_def)

lemma spec_token_triggers_ascii_view:
  "spec_token_triggers (ascii_view w) k = spec_token_triggers w k"
  by (cases k) (simp_all add: spec_token_triggers_def js_includes_ascii_view js_ascii)

lemma select_loop_spec:
  "select_loop tm d ws =
     (case find (\<lambda>token. list_ex (spec_token_triggers token) spec_priority) ws of
        None \<Rightarrow> d
      | Some token \<Rightarrow>
          tm (case find (spec_token_triggers token) spec_priority of
                None \<Rightarrow> space
              | Some k \<Rightarrow> k))"
  by (induction ws) (simp_all add: spec_priority_def spec_token_triggers_def)

lemma select_loop_range: "select_loop tm d ws = d \<or> (\<exists>k. select_loop tm d ws = tm k)"
  by (induction ws) auto

lemma select_loop_ascii_view:
  "select_loop tm d (map ascii_view ws) = select_loop tm d ws"
proof (induction ws)
  case Nil
  then show ?case by simp
next
  case (Cons w ws)
  show ?case
    unfolding select_loop_spec
    using Cons [unfolded select_loop_spec]
    by (simp add: spec_priority_def spec_token_triggers_ascii_view)
qed

lemma select_loop_skip_empty: "select_loop tm d ([] # ws) = select_loop tm d ws"
  by (simp add: js_def)

lemma select_loop_nonempty:
  assumes "f [] = []"
  shows "select_loop tm d (map f (filter (\<lambda>w. w \<noteq> []) ws)) = select_loop tm d (map f ws)"
proof (induction ws)
  case Nil
  then show ?case by simp
next
  case (Cons w ws)
  show ?case
  proof (cases "w = []")
    case True
    then show ?thesis using Cons assms by (simp add: select_loop_skip_empty del: select_loop.simps)
  next
    case False
    then show ?thesis using Cons by simp
  qed
qed

text \<open>The tokens of a query are the pieces of \<open>split_whitespace\<close> that are not empty.\<close>

lemma spec_tokens_dropWhile: "spec_tokens (dropWhile is_space s) = spec_tokens s"
  by (induction s) auto

lemma spec_tokens_run:
  assumes "\<forall>c\<in>set u. \<not> is_space c" and "u \<noteq> []"
  shows "spec_tokens (u @ r) =
         (u @ takeWhile (\<lambda>x. \<not> is_space x) r) # spec_tokens (dropWhile (\<lambda>x. \<not> is_space x) r)"
proof -
  obtain c u' where u: "u = c # u'" using assms(2) by (cases u) auto
  have "\<forall>x\<in>set u'. \<not> is_space x" "\<not> is_space c" using assms(1) u by auto
  then show ?thesis unfolding u by (simp add: takeWhile_append2 dropWhile_append2)
qed

lemma split_ws_tokens:
  "\<forall>c\<in>set acc. \<not> is_space c \<Longrightarrow>
   filter (\<lambda>w. w \<noteq> []) (split_ws acc s) = spec_tokens (rev acc @ s)"
proof (induction acc s rule: split_ws.induct)
  case (1 acc)
  show ?case
  proof (cases "acc = []")
    case True
    then show ?thesis by simp
  next
    case False
    then show ?thesis using spec_tokens_run [of "rev acc" "[]"] 1 by simp
  qed
next
  case (2 acc c cs)
  show ?case
  proof (cases "is_space c")
    case True
    have rest: "filter (\<lambda>w. w \<noteq> []) (split_ws [] (dropWhile is_space cs)) = spec_tokens cs"
      using 2(1) [OF True] by (simp add: spec_tokens_dropWhile)
    show ?thesis
    proof (cases "acc = []")
      case True
      then show ?thesis using \<open>is_space c\<close> rest by simp
    next
      case False
      then show ?thesis
        using spec_tokens_run [of "rev acc" "c # cs"] 2(3) \<open>is_space c\<close> rest by simp
    qed
  next
    case False
    then show ?thesis using 2(2) [OF False] 2(3) by simp
  qed
qed

lemma split_whitespace_tokens:
  "filter (\<lambda>w. w \<noteq> []) (split_whitespace q) = spec_tokens q"
  using split_ws_tokens [of "[]" q] by (simp add: split_whitespace_def)

text \<open>The facts of the engine's lower case, one by one.\<close>

lemma lower_case_ascii:
  "lower_case_facts lc \<Longrightarrow> \<forall>c\<in>set s. c < 0x80 \<Longrightarrow> lc s = ascii_lower s"
  by (simp add: lower_case_facts_def)

lemma lower_case_empty: "lower_case_facts lc \<Longrightarrow> lc [] = []"
  using lower_case_ascii [of lc "[]"] by (simp add: ascii_lower_def)

lemma lower_case_nonempty: "lower_case_facts lc \<Longrightarrow> s \<noteq> [] \<Longrightarrow> lc s \<noteq> []"
  unfolding lower_case_facts_def by blast

lemma lower_case_no_space:
  "lower_case_facts lc \<Longrightarrow> \<forall>c\<in>set s. \<not> is_space c \<Longrightarrow> \<forall>c\<in>set (lc s). \<not> is_space c"
  unfolding lower_case_facts_def by blast

lemma lower_case_at_space:
  "lower_case_facts lc \<Longrightarrow> is_space w \<Longrightarrow>
   ascii_view (lc (s @ w # t)) = ascii_view (lc s) @ w # ascii_view (lc t)"
  unfolding lower_case_facts_def by blast

lemma lower_case_facts_map:
  assumes ascii: "\<And>c. c < 0x80 \<Longrightarrow> f c = lower_unit c"
    and space: "\<And>c. is_space c \<Longrightarrow> f c = c"
    and no_space: "\<And>c. \<not> is_space c \<Longrightarrow> \<not> is_space (f c)"
  shows "lower_case_facts (map f)"
  unfolding lower_case_facts_def
proof (intro conjI allI impI)
  fix s :: jsstring
  show "map f s = ascii_lower s" if "\<forall>c\<in>set s. c < 0x80"
    using that by (simp add: ascii_lower_def ascii)
  show "s = []" if "map f s = []" using that by simp
  show "\<forall>c\<in>set (map f s). \<not> is_space c" if "\<forall>c\<in>set s. \<not> is_space c"
    using that by (simp add: no_space)
next
  fix s t :: jsstring and w :: jschar
  assume "is_space w"
  then show "ascii_view (map f (s @ w # t)) = ascii_view (map f s) @ w # ascii_view (map f t)"
    by (simp add: ascii_view_def ascii_view_unit_space space)
qed

lemma lower_unit_space: "is_space w \<Longrightarrow> lower_unit w = w"
proof -
  assume "is_space w"
  then have "\<not> (0x41 \<le> w \<and> w \<le> 0x5A)"
    by (auto simp: is_space_unat word_le_nat_alt)
  then show ?thesis by (simp add: lower_unit_def)
qed

lemma lower_case_facts_ascii_lower: "lower_case_facts ascii_lower"
  unfolding ascii_lower_def [abs_def]
  by (rule lower_case_facts_map) (simp_all add: lower_unit_space is_space_lower_unit)

lemma lower_case_facts_kelvin_lower: "lower_case_facts kelvin_lower"
  unfolding kelvin_lower_def [abs_def]
proof (rule lower_case_facts_map)
  fix c :: jschar
  show "kelvin_lower_unit c = lower_unit c" if "c < 0x80"
    using that by (auto simp: kelvin_lower_unit_def)
  show "kelvin_lower_unit c = c" if "is_space c"
    using that lower_unit_space [OF that] by (auto simp: kelvin_lower_unit_def is_space_def)
  show "\<not> is_space (kelvin_lower_unit c)" if "\<not> is_space c"
    using that by (simp add: kelvin_lower_unit_def is_space_lower_unit) (simp add: is_space_def)
qed

text \<open>
  Lower case first and the cut afterwards, or the cut first: the same pieces, up to the
  view of the ASCII code units.
\<close>

lemma lower_case_first_unit:
  assumes lc: "lower_case_facts lc" and t: "t = c # cs" and c: "\<not> is_space c"
  shows "dropWhile is_space (ascii_view (lc t)) = ascii_view (lc t)"
proof (cases "\<exists>x\<in>set t. is_space x")
  case False
  then have "\<forall>x\<in>set (ascii_view (lc t)). \<not> is_space x"
    using lower_case_no_space [OF lc, of t] by (simp add: ascii_view_no_space)
  then show ?thesis by (cases "ascii_view (lc t)") auto
next
  case True
  then obtain s w r where q: "t = s @ w # r" and s: "\<forall>x\<in>set s. \<not> is_space x" and w: "is_space w"
    by (rule cut_at_first_space)
  have "s \<noteq> []" using q t c w by (cases s) auto
  then have "lc s \<noteq> []" by (rule lower_case_nonempty [OF lc])
  then obtain y ys where y: "ascii_view (lc s) = y # ys"
    by (cases "ascii_view (lc s)") (auto simp: ascii_view_empty)
  have "\<forall>x\<in>set (ascii_view (lc s)). \<not> is_space x"
    using lower_case_no_space [OF lc s] by (simp add: ascii_view_no_space)
  then have "\<not> is_space y" using y by simp
  then show ?thesis unfolding q lower_case_at_space [OF lc w] y by simp
qed

lemma lower_case_after_space:
  assumes lc: "lower_case_facts lc"
    and M: "\<And>q. length q \<le> length t \<Longrightarrow>
      split_whitespace (ascii_view (lc q)) = map (\<lambda>w. ascii_view (lc w)) (split_whitespace q)"
  shows "split_whitespace (dropWhile is_space (ascii_view (lc t))) =
         map (\<lambda>w. ascii_view (lc w)) (split_whitespace (dropWhile is_space t))"
  using M
proof (induction t)
  case Nil
  then show ?case using lower_case_empty [OF lc] by (simp add: ascii_view_def)
next
  case (Cons c cs)
  show ?case
  proof (cases "is_space c")
    case True
    have "ascii_view (lc ([] @ c # cs)) = ascii_view (lc []) @ c # ascii_view (lc cs)"
      using lc True by (rule lower_case_at_space)
    then have "dropWhile is_space (ascii_view (lc (c # cs))) = dropWhile is_space (ascii_view (lc cs))"
      using True lower_case_empty [OF lc] by (simp add: ascii_view_def)
    moreover have "split_whitespace (dropWhile is_space (ascii_view (lc cs))) =
        map (\<lambda>w. ascii_view (lc w)) (split_whitespace (dropWhile is_space cs))"
      using Cons.IH Cons.prems by simp
    ultimately show ?thesis using True by simp
  next
    case False
    have "dropWhile is_space (ascii_view (lc (c # cs))) = ascii_view (lc (c # cs))"
      using lc _ False by (rule lower_case_first_unit) simp
    then show ?thesis using False Cons.prems [of "c # cs"] by simp
  qed
qed

lemma lower_case_split:
  assumes lc: "lower_case_facts lc"
  shows "split_whitespace (ascii_view (lc q)) = map (\<lambda>w. ascii_view (lc w)) (split_whitespace q)"
proof (induction q rule: length_induct)
  case (1 q)
  show ?case
  proof (cases "\<exists>c\<in>set q. is_space c")
    case False
    then have "\<forall>c\<in>set (ascii_view (lc q)). \<not> is_space c"
      using lower_case_no_space [OF lc, of q] by (simp add: ascii_view_no_space)
    then show ?thesis using False by (simp add: split_whitespace_no_space)
  next
    case True
    then obtain s w t where q: "q = s @ w # t" and s: "\<forall>c\<in>set s. \<not> is_space c" and w: "is_space w"
      by (rule cut_at_first_space)
    have vs: "\<forall>c\<in>set (ascii_view (lc s)). \<not> is_space c"
      using lower_case_no_space [OF lc s] by (simp add: ascii_view_no_space)
    have "split_whitespace (dropWhile is_space (ascii_view (lc t))) =
        map (\<lambda>w. ascii_view (lc w)) (split_whitespace (dropWhile is_space t))"
    proof (rule lower_case_after_space [OF lc])
      fix q' :: jsstring
      assume "length q' \<le> length t"
      then have "length q' < length q" using q by simp
      then show "split_whitespace (ascii_view (lc q')) =
          map (\<lambda>w. ascii_view (lc w)) (split_whitespace q')"
        using 1 by blast
    qed
    then show ?thesis
      unfolding q lower_case_at_space [OF lc w]
      by (simp add: split_whitespace_at_space s w vs)
  qed
qed

lemma select_loop_lower_case:
  assumes lc: "lower_case_facts lc"
  shows "select_loop tm d (split_whitespace (lc q)) = select_loop tm d (map lc (spec_tokens q))"
proof -
  have "select_loop tm d (split_whitespace (lc q)) =
      select_loop tm d (map ascii_view (split_whitespace (lc q)))"
    by (simp add: select_loop_ascii_view)
  also have "\<dots> = select_loop tm d (map ascii_view (map lc (split_whitespace q)))"
    using lower_case_split [OF lc, of q] by (simp add: split_whitespace_ascii_view comp_def)
  also have "\<dots> = select_loop tm d (map lc (split_whitespace q))"
    by (simp only: select_loop_ascii_view)
  also have "\<dots> = select_loop tm d (map lc (filter (\<lambda>w. w \<noteq> []) (split_whitespace q)))"
    using select_loop_nonempty [of lc tm d "split_whitespace q"] lower_case_empty [OF lc] by simp
  finally show ?thesis by (simp add: split_whitespace_tokens)
qed

lemma selectTheme_spec_key:
  assumes "lower_case_facts lc"
  shows "selectTheme lc q = themeMap q (spec_select_key lc q)"
proof -
  have "selectTheme lc q =
      select_loop (themeMap q) (themeMap q space) (map lc (spec_tokens q))"
    using assms by (simp add: selectTheme_def select_loop_lower_case)
  then show ?thesis
    unfolding select_loop_spec spec_select_key_def by (simp split: option.splits)
qed

lemma selectTheme_range: "\<exists>k. selectTheme lc q = themeMap q k"
  unfolding selectTheme_def Let_def
  using select_loop_range [of "themeMap q" "themeMap q space" "split_whitespace (lc q)"]
  by blast

lemma selectTheme_ascii:
  "lower_case_facts lc \<Longrightarrow> \<forall>c\<in>set q. c < 0x80 \<Longrightarrow> selectTheme lc q = selectTheme ascii_lower q"
  by (simp add: selectTheme_def lower_case_ascii)

lemma selectTheme_samples:
  "selectTheme ascii_lower (js ''a walk in the forest'') = themeMap (js ''a walk in the forest'') forest"
  "selectTheme ascii_lower (js ''quantum nothing'') = themeMap (js ''quantum nothing'') space"
  "selectTheme ascii_lower (js ''A Walk In The FOREST'') = themeMap (js ''A Walk In The FOREST'') forest"
  "selectTheme ascii_lower (js ''ocean forest'') = themeMap (js ''ocean forest'') ocean"
  "selectTheme ascii_lower (js ''my seaforest city'') = themeMap (js ''my seaforest city'') forest"
  unfolding selectTheme_def split_whitespace_def ascii_lower_def
  by (simp_all add: js_def lower_unit_def is_space_def)

lemma js_samples_ascii:
  "\<forall>c\<in>set (js ''a walk in the forest''). c < 0x80"
  "\<forall>c\<in>set (js ''quantum nothing''). c < 0x80"
  "\<forall>c\<in>set (js ''A Walk In The FOREST''). c < 0x80"
  "\<forall>c\<in>set (js ''ocean forest''). c < 0x80"
  "\<forall>c\<in>set (js ''my seaforest city''). c < 0x80"
  by (simp_all add: js_def)

text \<open>
  Claim C3. For every query, the theme that \<open>selectTheme\<close> returns is the theme of the
  first token of the query, in query order, that contains a trigger keyword once it is
  put in lower case, the tokens being the maximal runs of the query without white space
  and the priority forest, ocean, city, space, mind deciding among the themes that one
  token triggers; with no such token it is the space theme, whose name is Star Network.
  The source puts the query in lower case before it cuts it, the claim cuts first: the
  two agree for every engine whose \<open>toLowerCase\<close> has the four facts of
  \<open>lower_case_facts\<close>. The query \<open>a walk in the forest\<close> gives the forest theme and
  \<open>quantum nothing\<close> the space theme; capital letters trigger as small ones do, the first
  matching token wins over later ones, and the priority decides inside one token.
\<close>

theorem selectTheme_first_matching_token:
  assumes "lower_case_facts lc"
  shows "selectTheme lc q = themeMap q (spec_select_key lc q)
   \<and> name (themeMap q space) = js ''Star Network''
   \<and> selectTheme lc (js ''a walk in the forest'') = themeMap (js ''a walk in the forest'') forest
   \<and> selectTheme lc (js ''quantum nothing'') = themeMap (js ''quantum nothing'') space
   \<and> selectTheme lc (js ''A Walk In The FOREST'') = themeMap (js ''A Walk In The FOREST'') forest
   \<and> selectTheme lc (js ''ocean forest'') = themeMap (js ''ocean forest'') ocean
   \<and> selectTheme lc (js ''my seaforest city'') = themeMap (js ''my seaforest city'') forest"
proof -
  have 1: "selectTheme lc q = themeMap q (spec_select_key lc q)"
    using assms by (rule selectTheme_spec_key)
  have 2: "name (themeMap q space) = js ''Star Network''" by simp
  note ascii = selectTheme_ascii [OF assms]
  have 3: "selectTheme lc (js ''a walk in the forest'') = themeMap (js ''a walk in the forest'') forest"
    unfolding ascii [OF js_samples_ascii(1)] by (rule selectTheme_samples)
  have 4: "selectTheme lc (js ''quantum nothing'') = themeMap (js ''quantum nothing'') space"
    unfolding ascii [OF js_samples_ascii(2)] by (rule selectTheme_samples)
  have 5: "selectTheme lc (js ''A Walk In The FOREST'') = themeMap (js ''A Walk In The FOREST'') forest"
    unfolding ascii [OF js_samples_ascii(3)] by (rule selectTheme_samples)
  have 6: "selectTheme lc (js ''ocean forest'') = themeMap (js ''ocean forest'') ocean"
    unfolding ascii [OF js_samples_ascii(4)] by (rule selectTheme_samples)
  have 7: "selectTheme lc (js ''my seaforest city'') = themeMap (js ''my seaforest city'') forest"
    unfolding ascii [OF js_samples_ascii(5)] by (rule selectTheme_samples)
  show ?thesis using 1 2 3 4 5 6 7 by (intro conjI)
qed

text \<open>
  An engine with a case mapping outside ASCII and a query that needs it: \<open>THIN\<close> and the
  Kelvin sign make the token \<open>think\<close>, which comes before \<open>sea\<close>.
\<close>

theorem selectTheme_first_matching_token_witness:
  "lower_case_facts kelvin_lower
   \<and> spec_select_key kelvin_lower (js ''I THIN'' @ [0x212A] @ js ''  of the sea'') = mind
   \<and> selectTheme kelvin_lower (js ''I THIN'' @ [0x212A] @ js ''  of the sea'') =
       themeMap (js ''I THIN'' @ [0x212A] @ js ''  of the sea'') mind"
proof -
  have k: "spec_select_key kelvin_lower (js ''I THIN'' @ [0x212A] @ js ''  of the sea'') = mind"
    unfolding spec_select_key_def kelvin_lower_def
    by (simp add: js_def kelvin_lower_unit_def lower_unit_def is_space_def spec_token_triggers_def
        spec_priority_def)
  show ?thesis
    using selectTheme_first_matching_token [OF lower_case_facts_kelvin_lower,
        of "js ''I THIN'' @ [0x212A] @ js ''  of the sea''"]
      lower_case_facts_kelvin_lower
    unfolding k by (intro conjI) simp_all
qed

section \<open>The handlers\<close>

lemma js_POST_not_OPTIONS: "js ''POST'' \<noteq> js ''OPTIONS''"
  by (simp add: js_def)

lemma handler_try_post:
  "body req = Some b \<Longrightarrow> query b = Some q \<Longrightarrow> q \<noteq> [] \<Longrightarrow> truthy_string (apiKey env) \<Longrightarrow>
   handler_try env req = call_remote env q"
  by (simp add: handler_try_def)

lemma handler_try_api_post:
  "body req = Some b \<Longrightarrow> query b = Some q \<Longrightarrow> q \<noteq> [] \<Longrightarrow> truthy_string (apiKey env) \<Longrightarrow>
   handler_try_api env req = call_remote_api env q"
  by (simp add: handler_try_api_def)

lemma call_enhanceResponse_not_string:
  "(case c of String s \<Rightarrow> False | _ \<Rightarrow> True) \<Longrightarrow>
   call_enhanceResponse env c = Inl (TypeError NotAFunction) \<and>
   call_enhanceResponse_api env c = Inl (TypeError NotAFunction)"
  by (cases c) (simp_all add: call_enhanceResponse_def call_enhanceResponse_api_def)

lemma call_remote_failure:
  assumes f: "spec_remote_failure env e" and nq: "\<not> quota_reply_condition env"
  shows "call_remote env q = Inl e \<and> call_remote_api env q = Inl e"
proof (cases "fetch_promise env")
  case (Inl t)
  with f show ?thesis
    by (simp add: spec_remote_failure_def call_remote_def call_remote_api_def)
next
  case fetched: (Inr r)
  show ?thesis
  proof (cases "ok r")
    case True
    show ?thesis
    proof (cases "json_promise r")
      case (Inl t)
      with f fetched True show ?thesis
        by (simp add: spec_remote_failure_def call_remote_def call_remote_api_def)
    next
      case parsed: (Inr data)
      show ?thesis
      proof (cases "first_choice_content data")
        case (Inl t)
        with f fetched True parsed show ?thesis
          by (simp add: spec_remote_failure_def call_remote_def call_remote_api_def)
      next
        case (Inr c)
        with f fetched True parsed
        have c: "truthy c" "e = TypeError NotAFunction" "(case c of String s \<Rightarrow> False | _ \<Rightarrow> True)"
          by (simp_all add: spec_remote_failure_def)
        from call_enhanceResponse_not_string [OF c(3)] c(1,2) fetched True parsed Inr
        show ?thesis
          by (simp add: call_remote_def call_remote_api_def)
      qed
    qed
  next
    case False
    show ?thesis
    proof (cases "text_promise r")
      case (Inl t)
      with f fetched False show ?thesis
        by (simp add: spec_remote_failure_def call_remote_def call_remote_api_def)
    next
      case (Inr errorData)
      with f nq fetched False show ?thesis
        by (simp add: spec_remote_failure_def quota_reply_condition_def call_remote_def
            call_remote_api_def)
    qed
  qed
qed

text \<open>
  Claim C1. A POST request with a non-empty query and a configured key, whose remote
  call fails (a response outside 200 to 299 that does not get the quota reply, a
  transport error, or a malformed payload) with the error \<open>e\<close>: both handlers reply
  with status 200, a body whose \<open>response\<close> is the fallback document composed from the
  query of the request and whose \<open>error\<close> is the message of \<open>e\<close>. The handler of
  \<open>src/unnamed/part_000\<close> composes with \<open>createEnhancedFallbackResponse\<close>, the handler
  of \<open>src/api/experience.js\<close> with its only composer.
\<close>

theorem remote_failure_absorbed:
  assumes "http_method req = js ''POST''" and "body req = Some b" and "query b = Some q"
    and "q \<noteq> []" and "truthy_string (apiKey env)"
    and "spec_remote_failure env e" and "\<not> quota_reply_condition env"
  shows "handler env req =
           Json 200
             [(''response'', createEnhancedFallbackResponse (engine_toLowerCase env) (experienceId env) q),
              (''error'', message env e),
              (''timestamp'', now env),
              (''note'', js ''Using enhanced creative response engine'')]
       \<and> handler_api env req =
           Json 200
             [(''response'', createFallbackResponse_api (theme_draw env) (Some q)),
              (''error'', message env e),
              (''timestamp'', now env),
              (''note'', js ''Using fallback creative response'')]"
proof -
  have oq: "optional_query req = Some q" using assms(2,3) by (simp add: optional_query_def)
  have t: "handler_try env req = Inl e"
    using handler_try_post [OF assms(2-5)] call_remote_failure [OF assms(6,7)] by simp
  have ta: "handler_try_api env req = Inl e"
    using handler_try_api_post [OF assms(2-5)] call_remote_failure [OF assms(6,7)] by simp
  show ?thesis
    using assms(1,4) t ta oq
    by (simp add: handler_def handler_api_def handler_catch_def handler_catch_api_def
        js_POST_not_OPTIONS truthy_string_def template_string_def)
qed

theorem remote_failure_absorbed_witness:
  "handler (sample_environment (Some (js ''sk-1'')) (Inl (Error (js ''fetch failed'')))) (post_request (js ''ocean''))
     = Json 200
         [(''response'', createEnhancedFallbackResponse ascii_lower (js ''K3J9X0A1B'') (js ''ocean'')),
          (''error'', js ''fetch failed''),
          (''timestamp'', js ''2024-01-01T00:00:00.000Z''),
          (''note'', js ''Using enhanced creative response engine'')]"
  using remote_failure_absorbed [of "post_request (js ''ocean'')" "\<lparr>query = Some (js ''ocean'')\<rparr>" "js ''ocean''"
      "sample_environment (Some (js ''sk-1'')) (Inl (Error (js ''fetch failed'')))" "Error (js ''fetch failed'')"]
  by (simp add: post_request_def sample_environment_def truthy_string_def spec_remote_failure_def
      quota_reply_condition_def message_def js_def)

text \<open>
  Claim C2, as amended. A POST request with a non-empty query and no configured key:
  the handler of \<open>src/unnamed/part_000\<close> replies with status 200, the simple fallback
  document and the model identifier \<open>experience-x-fallback\<close>; the handler of
  \<open>src/api/experience.js\<close> replies with status 500 and the error
  \<open>Server configuration error\<close>.
\<close>

theorem missing_key_reply:
  assumes "http_method req = js ''POST''" and "body req = Some b" and "query b = Some q"
    and "q \<noteq> []" and "\<not> truthy_string (apiKey env)"
  shows "handler env req =
           Json 200
             [(''response'', createFallbackResponse (theme_draw env) q),
              (''query'', q),
              (''timestamp'', now env),
              (''model'', js ''experience-x-fallback'')]
       \<and> handler_api env req = Json 500 [(''error'', js ''Server configuration error'')]"
  using assms
  by (simp add: handler_def handler_api_def handler_try_def handler_try_api_def
      js_POST_not_OPTIONS)

theorem missing_key_reply_witness:
  "handler (sample_environment None (Inl (Error []))) (post_request (js ''ocean'')) =
     Json 200
       [(''response'', createFallbackResponse (draw_of 0 1) (js ''ocean'')),
        (''query'', js ''ocean''),
        (''timestamp'', js ''2024-01-01T00:00:00.000Z''),
        (''model'', js ''experience-x-fallback'')]"
  using missing_key_reply [of "post_request (js ''ocean'')" "\<lparr>query = Some (js ''ocean'')\<rparr>"
      "js ''ocean''" "sample_environment None (Inl (Error []))"]
  by (simp add: post_request_def sample_environment_def truthy_string_def js_def)

text \<open>
  Claim C2 as stated fails on \<open>src/api/experience.js\<close>: without a key its handler
  answers a POST request that has a query with status 500.
\<close>

theorem missing_key_api_counterexample:
  "reply_status (handler_api (sample_environment None (Inl (Error []))) (post_request (js ''ocean''))) = 500"
  by (simp add: handler_api_def handler_try_api_def post_request_def sample_environment_def
      truthy_string_def js_def)

text \<open>
  Claim C5. A POST request with a non-empty query and a configured key, whose remote
  call returns a response that signals the quota condition (its status is 402, or it is
  outside 200 to 299 and its body text contains \<open>Insufficient Balance\<close>). The handler of
  \<open>src/unnamed/part_000\<close> reads the body text before it looks at the status (lines 87 to
  91). When the text is read, the handler replies with status 200, the enhanced fallback
  document composed from the query, the model identifier \<open>experience-x-enhanced\<close> and
  the note on the balance. When the reading fails with the error \<open>t\<close>, which a response
  of status 402 does not exclude, the \<open>catch\<close> block replies: status 200, the enhanced
  fallback document composed from the query, the message of \<open>t\<close> as \<open>error\<close>, the general
  note, and neither \<open>model\<close> nor \<open>query\<close>.
\<close>

theorem quota_signal_reply:
  assumes "http_method req = js ''POST''" and "body req = Some b" and "query b = Some q"
    and "q \<noteq> []" and "truthy_string (apiKey env)"
    and "fetch_promise env = Inr response" and "spec_quota_signal env"
  shows "handler env req =
           (case text_promise response of
              Inr errorData \<Rightarrow>
                Json 200
                  [(''response'', createEnhancedFallbackResponse (engine_toLowerCase env) (experienceId env) q),
                   (''query'', q),
                   (''timestamp'', now env),
                   (''model'', js ''experience-x-enhanced''),
                   (''note'', js ''DeepSeek API balance issue - using enhanced creative mode'')]
            | Inl t \<Rightarrow>
                Json 200
                  [(''response'', createEnhancedFallbackResponse (engine_toLowerCase env) (experienceId env) q),
                   (''error'', message env t),
                   (''timestamp'', now env),
                   (''note'', js ''Using enhanced creative response engine'')])"
proof (cases "text_promise response")
  case (Inl t)
  have oq: "optional_query req = Some q" using assms(2,3) by (simp add: optional_query_def)
  have "\<not> ok response" using assms(6,7) by (simp add: spec_quota_signal_def)
  then have "call_remote env q = Inl t" using assms(6) Inl by (simp add: call_remote_def)
  then have "handler_try env req = Inl t" using handler_try_post [OF assms(2-5)] by simp
  then show ?thesis
    using assms(1,4) oq Inl
    by (simp add: handler_def handler_catch_def js_POST_not_OPTIONS truthy_string_def
        template_string_def)
next
  case (Inr errorData)
  have "\<not> ok response" "status response = 402 \<or> js_includes errorData (js ''Insufficient Balance'')"
    using assms(6,7) Inr by (simp_all add: spec_quota_signal_def)
  then have "call_remote env q =
      Inr (Json 200
             [(''response'', createEnhancedFallbackResponse (engine_toLowerCase env) (experienceId env) q),
              (''query'', q),
              (''timestamp'', now env),
              (''model'', js ''experience-x-enhanced''),
              (''note'', js ''DeepSeek API balance issue - using enhanced creative mode'')])"
    using assms(6) Inr by (simp add: call_remote_def)
  with handler_try_post [OF assms(2-5)] assms(1) Inr show ?thesis
    by (simp add: handler_def js_POST_not_OPTIONS)
qed

theorem quota_signal_reply_witness:
  "spec_quota_signal (sample_environment (Some (js ''sk-1''))
       (Inr (sample_response 400 (js ''{\"error\":{\"message\":\"Insufficient Balance\"}}'') Null)))
   \<and> handler (sample_environment (Some (js ''sk-1''))
       (Inr (sample_response 400 (js ''{\"error\":{\"message\":\"Insufficient Balance\"}}'') Null)))
       (post_request (js ''ocean'')) =
     Json 200
       [(''response'', createEnhancedFallbackResponse ascii_lower (js ''K3J9X0A1B'') (js ''ocean'')),
        (''query'', js ''ocean''),
        (''timestamp'', js ''2024-01-01T00:00:00.000Z''),
        (''model'', js ''experience-x-enhanced''),
        (''note'', js ''DeepSeek API balance issue - using enhanced creative mode'')]"
  using quota_signal_reply [of "post_request (js ''ocean'')" "\<lparr>query = Some (js ''ocean'')\<rparr>"
      "js ''ocean''" "sample_environment (Some (js ''sk-1''))
       (Inr (sample_response 400 (js ''{\"error\":{\"message\":\"Insufficient Balance\"}}'') Null))"
      "sample_response 400 (js ''{\"error\":{\"message\":\"Insufficient Balance\"}}'') Null"]
  by (simp add: post_request_def sample_environment_def sample_response_def truthy_string_def
      spec_quota_signal_def ok_def js_def)

text \<open>
  The claim as it is worded fails on a response of status 402 whose body cannot be read:
  the response signals the quota condition, and the reply carries no model identifier
  and not the note on the balance.
\<close>

theorem quota_unreadable_body_counterexample:
  "spec_quota_signal (sample_environment (Some (js ''sk-1''))
       (Inr \<lparr>status = 402, text_promise = Inl (Error (js ''terminated'')), json_promise = Inl (Error (js ''terminated''))\<rparr>))
   \<and> handler (sample_environment (Some (js ''sk-1''))
       (Inr \<lparr>status = 402, text_promise = Inl (Error (js ''terminated'')), json_promise = Inl (Error (js ''terminated''))\<rparr>))
       (post_request (js ''ocean'')) =
     Json 200
       [(''response'', createEnhancedFallbackResponse ascii_lower (js ''K3J9X0A1B'') (js ''ocean'')),
        (''error'', js ''terminated''),
        (''timestamp'', js ''2024-01-01T00:00:00.000Z''),
        (''note'', js ''Using enhanced creative response engine'')]
   \<and> field (handler (sample_environment (Some (js ''sk-1''))
       (Inr \<lparr>status = 402, text_promise = Inl (Error (js ''terminated'')), json_promise = Inl (Error (js ''terminated''))\<rparr>))
       (post_request (js ''ocean''))) ''model'' = None"
  by (simp add: handler_def handler_try_def handler_catch_def call_remote_def post_request_def
      sample_environment_def truthy_string_def template_string_def optional_query_def
      spec_quota_signal_def ok_def message_def field_def js_def)

text \<open>
  Claim C10. A POST request with a non-empty query and a configured key, whose remote
  call returns a response in 200 to 299 with a JSON payload whose first-choice content
  is absent or empty (any falsy value): the handler of \<open>src/unnamed/part_000\<close> formats
  the simple fallback document in its place, the handler of \<open>src/api/experience.js\<close>
  a fixed apology, and both reply with status 200, the model identifier
  \<open>deepseek-chat\<close> and neither a \<open>note\<close> nor an \<open>error\<close> field.
\<close>

theorem empty_content_reply:
  assumes "http_method req = js ''POST''" and "body req = Some b" and "query b = Some q"
    and "q \<noteq> []" and "truthy_string (apiKey env)"
    and "fetch_promise env = Inr r" and "ok r" and "json_promise r = Inr data"
    and "first_choice_content data = Inr content" and "\<not> truthy content"
  shows "handler env req =
           Json 200
             [(''response'', enhanceResponse (header_draw env) (footer_draw env)
                               (createFallbackResponse (theme_draw env) q)),
              (''query'', q),
              (''timestamp'', now env),
              (''model'', js ''deepseek-chat'')]
       \<and> handler_api env req =
           Json 200
             [(''response'', enhanceResponse_api (header_draw env) apology),
              (''query'', q),
              (''timestamp'', now env),
              (''model'', js ''deepseek-chat'')]
       \<and> field (handler env req) ''note'' = None \<and> field (handler env req) ''error'' = None
       \<and> field (handler_api env req) ''note'' = None \<and> field (handler_api env req) ''error'' = None"
proof -
  have "call_remote env q =
      Inr (Json 200
             [(''response'', enhanceResponse (header_draw env) (footer_draw env)
                               (createFallbackResponse (theme_draw env) q)),
              (''query'', q),
              (''timestamp'', now env),
              (''model'', js ''deepseek-chat'')])"
    using assms(6-10) by (simp add: call_remote_def call_enhanceResponse_def)
  with handler_try_post [OF assms(2-5)] assms(1)
  have 1: "handler env req =
           Json 200
             [(''response'', enhanceResponse (header_draw env) (footer_draw env)
                               (createFallbackResponse (theme_draw env) q)),
              (''query'', q),
              (''timestamp'', now env),
              (''model'', js ''deepseek-chat'')]"
    by (simp add: handler_def js_POST_not_OPTIONS)
  have "call_remote_api env q =
      Inr (Json 200
             [(''response'', enhanceResponse_api (header_draw env) apology),
              (''query'', q),
              (''timestamp'', now env),
              (''model'', js ''deepseek-chat'')])"
    using assms(6-10) by (simp add: call_remote_api_def call_enhanceResponse_api_def)
  with handler_try_api_post [OF assms(2-5)] assms(1)
  have 2: "handler_api env req =
           Json 200
             [(''response'', enhanceResponse_api (header_draw env) apology),
              (''query'', q),
              (''timestamp'', now env),
              (''model'', js ''deepseek-chat'')]"
    by (simp add: handler_api_def js_POST_not_OPTIONS)
  show ?thesis unfolding 1 2 by (simp add: field_def)
qed

theorem empty_content_reply_witness:
  "field (handler (sample_environment (Some (js ''sk-1'')) (Inr (sample_response 200 [] (Object []))))
            (post_request (js ''ocean''))) ''model'' = Some (js ''deepseek-chat'')
   \<and> field (handler (sample_environment (Some (js ''sk-1'')) (Inr (sample_response 200 [] (Object []))))
            (post_request (js ''ocean''))) ''response''
       = Some (enhanceResponse (draw_of 0 1) (draw_of 0 1) (createFallbackResponse (draw_of 0 1) (js ''ocean'')))
   \<and> field (handler (sample_environment (Some (js ''sk-1'')) (Inr (sample_response 200 [] (Object []))))
            (post_request (js ''ocean''))) ''note'' = None"
  using empty_content_reply [of "post_request (js ''ocean'')" "\<lparr>query = Some (js ''ocean'')\<rparr>"
      "js ''ocean''" "sample_environment (Some (js ''sk-1'')) (Inr (sample_response 200 [] (Object [])))"
      "sample_response 200 [] (Object [])" "Object []" Undefined]
  by (simp add: post_request_def sample_environment_def sample_response_def truthy_string_def
      ok_def first_choice_content_def lookup_def field_def js_def)

lemma call_remote_shapes:
  "(\<exists>e. call_remote env q = Inl e)
   \<or> (\<exists>text. call_remote env q = Inr (Json 200
         [(''response'', text), (''query'', q), (''timestamp'', now env),
          (''model'', js ''experience-x-enhanced''),
          (''note'', js ''DeepSeek API balance issue - using enhanced creative mode'')]))
   \<or> (\<exists>text. call_remote env q = Inr (Json 200
         [(''response'', text), (''query'', q), (''timestamp'', now env),
          (''model'', js ''deepseek-chat'')]))"
  unfolding call_remote_def by (simp split: sum.split)

lemma call_remote_api_shapes:
  "(\<exists>e. call_remote_api env q = Inl e)
   \<or> (\<exists>text. call_remote_api env q = Inr (Json 200
         [(''response'', text), (''query'', q), (''timestamp'', now env),
          (''model'', js ''deepseek-chat'')]))"
  unfolding call_remote_api_def by (simp split: sum.split)

lemma model_identifiers_mem:
  "js ''experience-x-fallback'' \<in> model_identifiers"
  "js ''experience-x-enhanced'' \<in> model_identifiers"
  "js ''deepseek-chat'' \<in> model_identifiers"
  by (simp_all add: model_identifiers_def)

lemma handler_try_shapes:
  "(\<exists>e. handler_try env req = Inl e)
   \<or> (\<exists>obj. handler_try env req = Inr (Json 400 obj))
   \<or> (\<exists>obj. handler_try env req = Inr (Json 200 obj) \<and> spec_success_body env req obj)"
proof (cases "body req")
  case None
  then show ?thesis by (simp add: handler_try_def)
next
  case (Some b)
  show ?thesis
  proof (cases "query b")
    case None
    with Some show ?thesis by (simp add: handler_try_def)
  next
    case q: (Some q)
    show ?thesis
    proof (cases "q = []")
      case True
      with Some q show ?thesis by (simp add: handler_try_def)
    next
      case False
      have oq: "optional_query req = Some q" using Some q by (simp add: optional_query_def)
      show ?thesis
      proof (cases "truthy_string (apiKey env)")
        case True
        have t: "handler_try env req = call_remote env q"
          using Some q False True by (simp add: handler_try_def)
        from call_remote_shapes [of env q] show ?thesis
          unfolding t
          by (auto simp: spec_success_body_def oq model_identifiers_mem)
      next
        case nokey: False
        with Some q False show ?thesis
          by (simp add: handler_try_def spec_success_body_def oq model_identifiers_mem)
      qed
    qed
  qed
qed

lemma handler_try_api_shapes:
  "(\<exists>e. handler_try_api env req = Inl e)
   \<or> (\<exists>s obj. handler_try_api env req = Inr (Json s obj) \<and> s \<noteq> 200)
   \<or> (\<exists>obj. handler_try_api env req = Inr (Json 200 obj) \<and> spec_success_body env req obj)"
proof (cases "body req")
  case None
  then show ?thesis by (simp add: handler_try_api_def)
next
  case (Some b)
  show ?thesis
  proof (cases "query b")
    case None
    with Some show ?thesis by (simp add: handler_try_api_def)
  next
    case q: (Some q)
    show ?thesis
    proof (cases "q = []")
      case True
      with Some q show ?thesis by (simp add: handler_try_api_def)
    next
      case False
      have oq: "optional_query req = Some q" using Some q by (simp add: optional_query_def)
      show ?thesis
      proof (cases "truthy_string (apiKey env)")
        case True
        have t: "handler_try_api env req = call_remote_api env q"
          using Some q False True by (simp add: handler_try_api_def)
        from call_remote_api_shapes [of env q] show ?thesis
          unfolding t
          by (auto simp: spec_success_body_def oq model_identifiers_mem)
      next
        case nokey: False
        with Some q False show ?thesis
          by (simp add: handler_try_api_def)
      qed
    qed
  qed
qed

text \<open>
  Claim C4, as amended. Every JSON body that a handler sends with status 200 has the
  fields \<open>response\<close> and \<open>timestamp\<close>; a body without an \<open>error\<close> field (every path but
  the catch block) also has \<open>query\<close>, the query of the request, and \<open>model\<close>, one of
  \<open>experience-x-fallback\<close>, \<open>experience-x-enhanced\<close> and \<open>deepseek-chat\<close>; a body with an
  \<open>error\<close> field (the catch block) has a \<open>note\<close>.
\<close>

theorem success_reply_fields:
  "(handler env req = Json 200 obj \<longrightarrow> spec_success_body env req obj)
   \<and> (handler_api env req = Json 200 obj \<longrightarrow> spec_success_body env req obj)"
proof
  show "handler env req = Json 200 obj \<longrightarrow> spec_success_body env req obj"
    using handler_try_shapes [of env req]
    by (auto simp: handler_def handler_catch_def spec_success_body_def split: if_splits)
  show "handler_api env req = Json 200 obj \<longrightarrow> spec_success_body env req obj"
    using handler_try_api_shapes [of env req]
    by (auto simp: handler_api_def handler_catch_api_def spec_success_body_def split: if_splits)
qed

theorem success_reply_fields_witness:
  "spec_success_body (sample_environment None (Inl (Error []))) (post_request (js ''ocean''))
     [(''response'', createFallbackResponse (draw_of 0 1) (js ''ocean'')),
      (''query'', js ''ocean''),
      (''timestamp'', js ''2024-01-01T00:00:00.000Z''),
      (''model'', js ''experience-x-fallback'')]"
  using success_reply_fields [of "sample_environment None (Inl (Error []))" "post_request (js ''ocean'')"
      "[(''response'', createFallbackResponse (draw_of 0 1) (js ''ocean'')),
      (''query'', js ''ocean''),
      (''timestamp'', js ''2024-01-01T00:00:00.000Z''),
      (''model'', js ''experience-x-fallback'')]"]
  by (simp add: handler_def handler_try_def post_request_def sample_environment_def
      truthy_string_def js_def)

text \<open>
  Claim C4 as stated fails in the catch block: when the \<open>fetch\<close> rejects, the body
  sent with status 200 has neither a \<open>query\<close> nor a \<open>model\<close> field.
\<close>

theorem success_reply_fields_counterexample:
  "reply_status (handler (sample_environment (Some (js ''sk-1'')) (Inl (Error (js ''fetch failed''))))
      (post_request (js ''ocean''))) = 200
   \<and> field (handler (sample_environment (Some (js ''sk-1'')) (Inl (Error (js ''fetch failed''))))
      (post_request (js ''ocean''))) ''query'' = None
   \<and> field (handler (sample_environment (Some (js ''sk-1'')) (Inl (Error (js ''fetch failed''))))
      (post_request (js ''ocean''))) ''model'' = None"
  by (simp add: handler_def handler_try_def call_remote_def handler_catch_def field_def
      post_request_def sample_environment_def truthy_string_def js_def)

section \<open>The composers and the formatters\<close>

lemma js_includes_sublist: "js_includes s k = sublist k s"
  by (induction s) (auto simp: sublist_Cons_right)

lemma sublist_here: "sublist q (q @ r)"
  by (rule sublist_append_rightI)

lemma sublist_skip: "sublist q r \<Longrightarrow> sublist q (a @ r)"
  by (metis sublist_append_leftI sublist_order.order_trans)

lemma random_index_less: "0 < n \<Longrightarrow> random_index r n < n"
proof -
  assume n: "0 < n"
  have r: "0 \<le> Rep_draw r" "Rep_draw r < 1" using Rep_draw [of r] by auto
  have "Rep_draw r * of_nat n < of_nat n" using r n by simp
  then have "\<lfloor>Rep_draw r * of_nat n\<rfloor> < int n" by (simp add: floor_less_iff)
  then show ?thesis unfolding random_index_def using n by linarith
qed

lemma random_element_in: "xs \<noteq> [] \<Longrightarrow> random_element xs r \<in> set xs"
  by (simp add: random_element_def random_index_less)

lemma random_element_first: "random_element (x # xs) (draw_of 0 n) = x"
  by (simp add: random_element_def random_index_def draw_of.rep_eq)

lemma query_in_enhanced: "sublist q (createEnhancedFallbackResponse lc ident q)"
  unfolding createEnhancedFallbackResponse_def enhanced_document_def Let_def
  by (rule sublist_here | rule sublist_skip)+

lemma name_in_enhanced: "sublist (name (selectTheme lc q)) (createEnhancedFallbackResponse lc ident q)"
  unfolding createEnhancedFallbackResponse_def enhanced_document_def Let_def
  by (rule sublist_here | rule sublist_skip)+

lemma query_in_simple: "sublist q (createFallbackResponse d q)"
  unfolding createFallbackResponse_def Let_def
  by (rule sublist_here | rule sublist_skip)+

lemma name_in_simple: "sublist (random_element simpleThemes d) (createFallbackResponse d q)"
  unfolding createFallbackResponse_def Let_def
  by (rule sublist_here | rule sublist_skip)+

lemma query_in_api: "sublist q (createFallbackResponse_api d (Some q))"
  unfolding createFallbackResponse_api_def Let_def template_string_def option.case
  by (rule sublist_here | rule sublist_skip)+

lemma name_in_api:
  "sublist (name (random_element (themes_api q) d)) (createFallbackResponse_api d (Some q))"
  unfolding createFallbackResponse_api_def Let_def template_string_def option.case
  by (rule sublist_here | rule sublist_skip)+

text \<open>
  Claim C7. For every query, the text of each fallback composer contains the name of
  the theme it chose and the query itself, as runs of consecutive code units: the
  enhanced and the simple composer of \<open>src/unnamed/part_000\<close> and the composer of
  \<open>src/api/experience.js\<close>.
\<close>

theorem composers_contain_theme_and_query:
  "sublist q (createEnhancedFallbackResponse lc ident q)
   \<and> sublist (name (selectTheme lc q)) (createEnhancedFallbackResponse lc ident q)
   \<and> sublist q (createFallbackResponse d q)
   \<and> sublist (random_element simpleThemes d) (createFallbackResponse d q)
   \<and> random_element simpleThemes d \<in> set simpleThemes
   \<and> sublist q (createFallbackResponse_api d (Some q))
   \<and> sublist (name (random_element (themes_api q) d)) (createFallbackResponse_api d (Some q))
   \<and> random_element (themes_api q) d \<in> set (themes_api q)"
  using query_in_enhanced name_in_enhanced query_in_simple name_in_simple query_in_api name_in_api
    random_element_in [of simpleThemes d] random_element_in [of "themes_api q" d]
  by (simp add: simpleThemes_def themes_api_def)

lemma render_paragraphs_rest:
  "0 < index \<Longrightarrow> render_paragraphs index ps = concat (map spec_classified_line ps)"
  by (induction ps arbitrary: index)
     (simp_all add: render_paragraph_def spec_classified_line_def spec_emphasised_def
        js_includes_sublist)

lemma render_paragraphs_spec: "render_paragraphs 0 ps = spec_render ps"
  by (cases ps) (simp_all add: render_paragraph_def render_paragraphs_rest)

lemma enhanceResponse_spec:
  "enhanceResponse h f s = spec_format (random_element headers h) (random_element footers f) s"
  by (simp add: enhanceResponse_def spec_format_def paragraphs_of_def render_paragraphs_spec)

lemma format_paragraphs_api_enumerate:
  "format_paragraphs_api index ps = map spec_line_api (enumerate index ps)"
  by (induction ps arbitrary: index)
     (simp_all add: format_paragraph_api_def spec_line_api_def dvd_eq_mod_eq_0)

text \<open>
  Claim C6, as amended. The formatter of \<open>src/unnamed/part_000\<close> strips the four
  disallowed characters, splits at double newlines, drops the paragraphs that are empty
  after trimming, renders the first remaining paragraph with the prefix \<open>## \<close> and
  every later one with the arrow exactly when it contains \<open>**\<close> or is longer than 100
  code units and with the bullet otherwise, each followed by a blank line, between a
  header and a footer; with two remaining paragraphs the result is the header, one title
  line, one classified line and the footer. The formatter of \<open>src/api/experience.js\<close>
  strips nothing and drops nothing: it prefixes the first piece of the split with
  \<open>## \<close>, every later piece whose position is a multiple of three with the arrow and
  no other piece, joins them with blank lines after its header, and adds no footer.
\<close>

theorem formatter_rendering:
  "enhanceResponse h f s = spec_format (random_element headers h) (random_element footers f) s
   \<and> (paragraphs_of (strip_noise s) = [title, p] \<longrightarrow>
        enhanceResponse h f s =
          random_element headers h @ js ''\<newline>\<newline>'' @
          js ''## '' @ title @ js ''\<newline>\<newline>'' @
          (if sublist (js ''**'') p \<or> length p > 100 then rightwards_arrow else bullet) @
            js '' '' @ p @ js ''\<newline>\<newline>'' @
          random_element footers f)
   \<and> enhanceResponse_api d s =
        random_element enhancements d @
        join (js ''\<newline>\<newline>'') (map spec_line_api (enumerate 0 (split_paragraphs s)))"
proof -
  have "paragraphs_of (strip_noise s) = [title, p] \<longrightarrow>
        enhanceResponse h f s =
          random_element headers h @ js ''\<newline>\<newline>'' @
          js ''## '' @ title @ js ''\<newline>\<newline>'' @
          (if sublist (js ''**'') p \<or> length p > 100 then rightwards_arrow else bullet) @
            js '' '' @ p @ js ''\<newline>\<newline>'' @
          random_element footers f"
    by (simp add: enhanceResponse_def render_paragraphs_spec spec_classified_line_def
        spec_emphasised_def)
  moreover have "enhanceResponse_api d s =
        random_element enhancements d @
        join (js ''\<newline>\<newline>'') (map spec_line_api (enumerate 0 (split_paragraphs s)))"
    by (simp add: enhanceResponse_api_def format_paragraphs_api_enumerate)
  ultimately show ?thesis using enhanceResponse_spec by simp
qed

lemma paragraphs_title_body:
  "paragraphs_of (strip_noise (js ''*Title*\<newline>\<newline>body'')) = [js ''Title'', js ''body'']"
  by (simp add: paragraphs_of_def split_paragraphs_def strip_noise_def trim_def is_space_def js_def)

theorem formatter_rendering_witness:
  "enhanceResponse (draw_of 0 1) (draw_of 0 1) (js ''*Title*\<newline>\<newline>body'') =
     js ''\<newline>\<newline>'' @ milky_way @ js '' **DIGITAL REALITY MANIFESTED** '' @ milky_way @ js ''\<newline>'' @
     js ''\<newline>\<newline>'' @
     js ''## Title\<newline>\<newline>'' @
     bullet @ js '' body\<newline>\<newline>'' @
     js ''\<newline>---\<newline>*Reality continues to evolve. Your presence shapes this digital realm.*''"
proof -
  have h: "random_element headers (draw_of 0 1) =
      js ''\<newline>\<newline>'' @ milky_way @ js '' **DIGITAL REALITY MANIFESTED** '' @ milky_way @ js ''\<newline>''"
    unfolding headers_def by (rule random_element_first)
  have f: "random_element footers (draw_of 0 1) =
      js ''\<newline>---\<newline>*Reality continues to evolve. Your presence shapes this digital realm.*''"
    unfolding footers_def by (rule random_element_first)
  have e: "\<not> sublist (js ''**'') (js ''body'')" "\<not> length (js ''body'') > 100"
    by (simp_all add: js_includes_sublist [symmetric] js_def)
  from formatter_rendering [of "draw_of 0 1" "draw_of 0 1" "js ''*Title*\<newline>\<newline>body''"
      "js ''Title''" "js ''body''"] paragraphs_title_body
  have "enhanceResponse (draw_of 0 1) (draw_of 0 1) (js ''*Title*\<newline>\<newline>body'') =
          random_element headers (draw_of 0 1) @ js ''\<newline>\<newline>'' @
          js ''## '' @ js ''Title'' @ js ''\<newline>\<newline>'' @
          (if sublist (js ''**'') (js ''body'') \<or> length (js ''body'') > 100 then rightwards_arrow else bullet) @
            js '' '' @ js ''body'' @ js ''\<newline>\<newline>'' @
          random_element footers (draw_of 0 1)"
    by blast
  then show ?thesis unfolding h f using e by (simp add: js_def)
qed

text \<open>
  Claim C6 as stated fails on the formatter of \<open>src/api/experience.js\<close>: of two
  paragraphs the second gets neither the arrow nor the bullet, and nothing follows it.
\<close>

theorem formatter_api_counterexample:
  "enhanceResponse_api (draw_of 0 1) (js ''a\<newline>\<newline>b'') =
     js ''\<newline>\<newline>'' @ milky_way @ js '' *Digital Experience Engaged* '' @ milky_way @ js ''\<newline>'' @
     js ''## a\<newline>\<newline>b''"
proof -
  have h: "random_element enhancements (draw_of 0 1) =
      js ''\<newline>\<newline>'' @ milky_way @ js '' *Digital Experience Engaged* '' @ milky_way @ js ''\<newline>''"
    unfolding enhancements_def by (rule random_element_first)
  show ?thesis
    unfolding enhanceResponse_api_def Let_def h
    by (simp add: split_paragraphs_def format_paragraph_api_def js_def)
qed

lemma strip_noise_all:
  "set s \<subseteq> {0xFFFD, 0x2A, 0x5F, 0x60} \<Longrightarrow> strip_noise s = []"
  by (auto simp: strip_noise_def filter_empty_conv)

lemma paragraphs_of_empty: "paragraphs_of [] = []"
  by (simp add: paragraphs_of_def split_paragraphs_def trim_def)

text \<open>
  Claim C8, as amended. On the empty string and on a text of disallowed characters
  only, the formatter of \<open>src/unnamed/part_000\<close> returns a non-empty document: one of
  its headers, a blank line and one of its footers, with no paragraph between them. The
  formatter of \<open>src/api/experience.js\<close> returns on the empty string its header followed
  by the prefix \<open>## \<close> of an empty title, and no footer.
\<close>

theorem formatter_without_paragraphs:
  "(set s \<subseteq> {0xFFFD, 0x2A, 0x5F, 0x60} \<longrightarrow>
      enhanceResponse h f s = random_element headers h @ js ''\<newline>\<newline>'' @ random_element footers f
      \<and> random_element headers h \<in> set headers
      \<and> random_element footers f \<in> set footers
      \<and> enhanceResponse h f s \<noteq> [])
   \<and> enhanceResponse_api d [] = random_element enhancements d @ js ''## ''"
proof -
  have api: "enhanceResponse_api d [] = random_element enhancements d @ js ''## ''"
    by (simp add: enhanceResponse_api_def split_paragraphs_def format_paragraph_api_def)
  have hs: "random_element headers h \<in> set headers"
    by (rule random_element_in) (simp add: headers_def)
  have fs: "random_element footers f \<in> set footers"
    by (rule random_element_in) (simp add: footers_def)
  have nn: "js ''\<newline>\<newline>'' \<noteq> []" by (simp add: js_def)
  show ?thesis
  proof (intro conjI impI)
    assume s: "set s \<subseteq> {0xFFFD, 0x2A, 0x5F, 0x60}"
    show e: "enhanceResponse h f s =
        random_element headers h @ js ''\<newline>\<newline>'' @ random_element footers f"
      by (simp add: enhanceResponse_def strip_noise_all [OF s] paragraphs_of_empty)
    show "enhanceResponse h f s \<noteq> []" unfolding e using nn by simp
  qed (rule hs, rule fs, rule api)
qed

theorem formatter_without_paragraphs_witness:
  "enhanceResponse (draw_of 0 1) (draw_of 0 1) (js ''**_'') =
     js ''\<newline>\<newline>'' @ milky_way @ js '' **DIGITAL REALITY MANIFESTED** '' @ milky_way @ js ''\<newline>'' @
     js ''\<newline>\<newline>'' @
     js ''\<newline>---\<newline>*Reality continues to evolve. Your presence shapes this digital realm.*''"
proof -
  have h: "random_element headers (draw_of 0 1) =
      js ''\<newline>\<newline>'' @ milky_way @ js '' **DIGITAL REALITY MANIFESTED** '' @ milky_way @ js ''\<newline>''"
    unfolding headers_def by (rule random_element_first)
  have f: "random_element footers (draw_of 0 1) =
      js ''\<newline>---\<newline>*Reality continues to evolve. Your presence shapes this digital realm.*''"
    unfolding footers_def by (rule random_element_first)
  have s: "set (js ''**_'') \<subseteq> {0xFFFD, 0x2A, 0x5F, 0x60 :: 16 word}"
    by (simp add: js_def)
  from formatter_without_paragraphs [of "js ''**_''" "draw_of 0 1" "draw_of 0 1"] s
  have "enhanceResponse (draw_of 0 1) (draw_of 0 1) (js ''**_'') =
      random_element headers (draw_of 0 1) @ js ''\<newline>\<newline>'' @ random_element footers (draw_of 0 1)"
    by blast
  then show ?thesis unfolding h f by simp
qed

text \<open>
  Claim C8 as stated fails on the formatter of \<open>src/api/experience.js\<close>: on the empty
  string it renders one title line, and its result contains no footer.
\<close>

theorem formatter_api_empty_counterexample:
  "enhanceResponse_api (draw_of 0 1) [] =
     js ''\<newline>\<newline>'' @ milky_way @ js '' *Digital Experience Engaged* '' @ milky_way @ js ''\<newline>'' @
     js ''## ''
   \<and> \<not> list_ex (js_includes (enhanceResponse_api (draw_of 0 1) [])) footers"
proof -
  have h: "random_element enhancements (draw_of 0 1) =
      js ''\<newline>\<newline>'' @ milky_way @ js '' *Digital Experience Engaged* '' @ milky_way @ js ''\<newline>''"
    unfolding enhancements_def by (rule random_element_first)
  have e: "enhanceResponse_api (draw_of 0 1) [] =
     js ''\<newline>\<newline>'' @ milky_way @ js '' *Digital Experience Engaged* '' @ milky_way @ js ''\<newline>'' @
     js ''## ''"
    unfolding enhanceResponse_api_def Let_def h
    by (simp add: split_paragraphs_def format_paragraph_api_def)
  show ?thesis unfolding e
    by (simp add: footers_def js_def milky_way_def)
qed

section \<open>Paragraph counts\<close>

lemma js_double_newline: "js ''\<newline>\<newline>'' = [0xA, 0xA]"
  by (simp add: js_def)

lemma is_space_newline: "is_space 0xA"
  by (simp add: is_space_def)

lemma trim_empty: "(trim p = []) = (\<forall>c\<in>set p. is_space c)"
proof
  assume "trim p = []"
  then have all: "\<forall>x\<in>set (dropWhile is_space p). is_space x"
    by (simp add: trim_def)
  have "dropWhile is_space p = []"
  proof (rule ccontr)
    assume ne: "dropWhile is_space p \<noteq> []"
    then have "\<not> is_space (hd (dropWhile is_space p))" by (rule hd_dropWhile)
    moreover have "hd (dropWhile is_space p) \<in> set (dropWhile is_space p)" using ne by simp
    ultimately show False using all by blast
  qed
  then show "\<forall>c\<in>set p. is_space c" by simp
next
  assume "\<forall>c\<in>set p. is_space c"
  then show "trim p = []" by (auto simp: trim_def dest: set_dropWhileD)
qed

lemma trim_nonblank: "(0 < length (trim p)) = (\<exists>c\<in>set p. \<not> is_space c)"
  by (simp add: trim_empty)

lemma count_from_splitNN:
  "length (filter (\<lambda>p. 0 < length (trim p)) (splitNN acc s))
     = count_from (\<exists>c\<in>set acc. \<not> is_space c) s"
  by (induction acc s rule: splitNN.induct) (auto simp: trim_empty)

lemma paragraph_count_count_from: "paragraph_count s = count_from False s"
  using count_from_splitNN [of "[]" s]
  by (simp add: paragraph_count_def paragraphs_of_def split_paragraphs_def)

lemma count_from_newline: "count_from False (0xA # s) = count_from False s"
  by (induction s rule: induct_list012) (auto simp: is_space_newline)

lemma count_from_cons: "a \<noteq> 0xA \<Longrightarrow> count_from seen (a # s) = count_from (seen \<or> \<not> is_space a) s"
  by (cases s) auto

lemma count_from_separator:
  "count_from seen (a @ 0xA # 0xA # b) = count_from seen a + count_from False b"
proof (induction seen a rule: count_from.induct)
  case (1 seen x y cs)
  then show ?case by simp
next
  case (2 seen x)
  then show ?case by (simp add: count_from_newline is_space_newline)
next
  case (3 seen)
  then show ?case by simp
qed

lemma single_paragraph_count:
  "single_paragraph p \<Longrightarrow> count_from seen p = (if seen \<or> (\<exists>c\<in>set p. \<not> is_space c) then 1 else 0)"
  by (induction seen p rule: count_from.induct) auto

lemma single_paragraph_snoc:
  "single_paragraph (xs @ [a]) \<Longrightarrow> \<not> (a = 0xA \<and> b = 0xA) \<Longrightarrow> single_paragraph (xs @ [a, b])"
  by (induction xs rule: single_paragraph.induct) auto

lemma single_paragraph_butlast: "single_paragraph (xs @ [a]) \<Longrightarrow> single_paragraph xs"
  by (induction xs rule: single_paragraph.induct) auto

lemma single_paragraph_short: "length xs \<le> 1 \<Longrightarrow> single_paragraph xs"
  by (cases xs rule: single_paragraph.cases) simp_all

lemma splitNN_single_paragraph:
  "single_paragraph (rev acc @ take 1 s) \<Longrightarrow> p \<in> set (splitNN acc s) \<Longrightarrow> single_paragraph p"
proof (induction acc s rule: splitNN.induct)
  case (1 acc a b cs)
  show ?case
  proof (cases "a = 0xA \<and> b = 0xA")
    case True
    with "1.prems"(2) have "p = rev acc \<or> p \<in> set (splitNN [] cs)" by simp
    then show ?thesis
    proof
      assume "p = rev acc"
      with "1.prems"(1) show ?thesis using single_paragraph_butlast [of "rev acc" a] by simp
    next
      assume p: "p \<in> set (splitNN [] cs)"
      have "single_paragraph (rev [] @ take 1 cs)" by (simp add: single_paragraph_short)
      with "1.IH"(1) [OF True _ p] show ?thesis by simp
    qed
  next
    case False
    with "1.prems"(2) have p: "p \<in> set (splitNN (a # acc) (b # cs))" by simp
    have "single_paragraph (rev (a # acc) @ take 1 (b # cs))"
      using single_paragraph_snoc [of "rev acc" a b] "1.prems"(1) False by simp
    with "1.IH"(2) [OF False _ p] show ?thesis by simp
  qed
next
  case (2 acc a)
  then show ?case by simp
next
  case (3 acc)
  then show ?case by simp
qed

lemma paragraphs_of_single:
  "p \<in> set (paragraphs_of s) \<Longrightarrow> single_paragraph p \<and> (\<exists>c\<in>set p. \<not> is_space c)"
  using splitNN_single_paragraph [of "[]" s p]
  by (auto simp: paragraphs_of_def split_paragraphs_def trim_empty single_paragraph_short)

lemma header_count: "H \<in> set headers \<Longrightarrow> count_from False H = 1"
  by (auto simp: headers_def js_def milky_way_def high_voltage_def cyclone_def sparkles_def
      is_space_def)

lemma footer_count: "F \<in> set footers \<Longrightarrow> count_from False F = 1"
  by (auto simp: footers_def js_def is_space_def)

lemma rendered_paragraph_count:
  assumes "single_paragraph p"
  shows "count_from False (render_paragraph i p @ R) = 1 + count_from False R"
proof -
  have pre: "count_from False (js ''## '' @ p) = 1"
    "count_from False (rightwards_arrow @ js '' '' @ p) = 1"
    "count_from False (bullet @ js '' '' @ p) = 1"
    using assms
    by (simp_all add: js_def rightwards_arrow_def bullet_def count_from_cons is_space_def
        single_paragraph_count)
  have "render_paragraph i p @ R =
      (if i = 0 then js ''## '' @ p
       else if js_includes p (js ''**'') \<or> length p > 100 then rightwards_arrow @ js '' '' @ p
       else bullet @ js '' '' @ p) @ 0xA # 0xA # R"
    by (simp add: render_paragraph_def js_double_newline)
  then show ?thesis using pre by (simp add: count_from_separator)
qed

lemma rendered_paragraphs_count:
  "\<forall>p\<in>set ps. single_paragraph p \<Longrightarrow>
   count_from False (render_paragraphs i ps @ F) = length ps + count_from False F"
  by (induction ps arbitrary: i) (simp_all add: rendered_paragraph_count)

lemma formatter_paragraph_count:
  "paragraph_count (enhanceResponse h f s) = paragraph_count (strip_noise s) + 2"
proof -
  let ?ps = "paragraphs_of (strip_noise s)"
  have hs: "random_element headers h \<in> set headers"
    by (rule random_element_in) (simp add: headers_def)
  have fs: "random_element footers f \<in> set footers"
    by (rule random_element_in) (simp add: footers_def)
  have sp: "\<forall>p\<in>set ?ps. single_paragraph p" using paragraphs_of_single by blast
  have "enhanceResponse h f s =
      random_element headers h @ 0xA # 0xA # (render_paragraphs 0 ?ps @ random_element footers f)"
    by (simp add: enhanceResponse_def js_double_newline)
  then have "count_from False (enhanceResponse h f s) =
      count_from False (random_element headers h)
      + count_from False (render_paragraphs 0 ?ps @ random_element footers f)"
    by (simp only: count_from_separator)
  also have "\<dots> = 1 + (length ?ps + 1)"
    by (simp only: header_count [OF hs] footer_count [OF fs] rendered_paragraphs_count [OF sp])
  finally have "count_from False (enhanceResponse h f s) = length ?ps + 2" by simp
  then have "paragraph_count (enhanceResponse h f s) = length ?ps + 2"
    by (simp only: paragraph_count_count_from)
  then show ?thesis by (simp only: paragraph_count_def)
qed

lemma no_hole_const: "no_hole (\<lambda>q. c)"
  by (simp add: no_hole_def)

lemma one_hole_here: "no_hole F \<Longrightarrow> one_hole (\<lambda>q. q @ F q)"
  unfolding no_hole_def one_hole_def by (metis append_Nil)

lemma one_hole_skip: "one_hole F \<Longrightarrow> one_hole (\<lambda>q. c @ F q)"
  unfolding one_hole_def by (metis append_assoc)

lemma two_holes_here: "one_hole F \<Longrightarrow> two_holes (\<lambda>q. q @ F q)"
  unfolding one_hole_def two_holes_def by (metis append_Nil)

lemma two_holes_skip: "two_holes F \<Longrightarrow> two_holes (\<lambda>q. c @ F q)"
  unfolding two_holes_def by (metis append_assoc)

lemma enhanced_document_two_holes: "two_holes (\<lambda>q. enhanced_document ident q selectedTheme)"
  unfolding enhanced_document_def
  by (rule two_holes_here one_hole_here no_hole_const | rule two_holes_skip one_hole_skip)+

lemma asterisk_paragraph: "js ''*\<newline>\<newline>'' = [0x2A, 0xA, 0xA]"
  by (simp add: js_def)

lemma count_from_asterisks:
  "count_from False (concat (replicate k (js ''*\<newline>\<newline>'')) @ R) = k + count_from False R"
proof (induction k)
  case 0
  show ?case by simp
next
  case (Suc k)
  have "count_from False ([0x2A] @ 0xA # 0xA # (concat (replicate k (js ''*\<newline>\<newline>'')) @ R))
      = count_from False [0x2A] + count_from False (concat (replicate k (js ''*\<newline>\<newline>'')) @ R)"
    by (rule count_from_separator)
  then show ?case using Suc by (simp add: asterisk_paragraph is_space_def)
qed

lemma count_from_asterisks_within:
  "k \<le> count_from seen (A @ asterisk_paragraphs (Suc k) @ B)"
proof -
  have "A @ asterisk_paragraphs (Suc k) @ B =
      (A @ [0x2A]) @ 0xA # 0xA # (concat (replicate k (js ''*\<newline>\<newline>'')) @ (js ''x'' @ B))"
    by (simp add: asterisk_paragraphs_def asterisk_paragraph)
  then have "count_from seen (A @ asterisk_paragraphs (Suc k) @ B) =
      count_from seen (A @ [0x2A]) + (k + count_from False (js ''x'' @ B))"
    by (simp only: count_from_separator count_from_asterisks)
  then show ?thesis by simp
qed

lemma count_from_blank_lines:
  "count_from False (concat (replicate k [0xA, 0xA]) @ R) = count_from False R"
  by (induction k) simp_all

lemma count_from_blank_lines_within:
  "count_from seen (A @ concat (replicate (Suc k) [0xA, 0xA]) @ R) = count_from seen A + count_from False R"
proof -
  have "A @ concat (replicate (Suc k) [0xA, 0xA]) @ R = A @ 0xA # 0xA # (concat (replicate k [0xA, 0xA]) @ R)"
    by simp
  then show ?thesis by (simp only: count_from_separator count_from_blank_lines)
qed

lemma strip_noise_append: "strip_noise (a @ b) = strip_noise a @ strip_noise b"
  by (simp add: strip_noise_def)

lemma strip_noise_asterisks:
  "strip_noise (asterisk_paragraphs k) = concat (replicate k [0xA, 0xA]) @ js ''x''"
proof -
  have "strip_noise (concat (replicate k (js ''*\<newline>\<newline>''))) = concat (replicate k [0xA, 0xA])"
    by (induction k) (simp_all add: strip_noise_def asterisk_paragraph)
  moreover have "strip_noise (js ''x'') = js ''x''" by (simp add: strip_noise_def js_def)
  ultimately show ?thesis by (simp add: asterisk_paragraphs_def strip_noise_append)
qed

lemma js_includes_mem: "js_includes w k \<Longrightarrow> c \<in> set k \<Longrightarrow> c \<in> set w"
  unfolding js_includes_sublist by (auto dest: set_mono_sublist)

lemma no_trigger:
  assumes "0x65 \<notin> set w" and "0x69 \<notin> set w" and "0x75 \<notin> set w"
  shows "\<not> js_includes w (js ''forest'')" "\<not> js_includes w (js ''tree'')" "\<not> js_includes w (js ''nature'')"
    "\<not> js_includes w (js ''ocean'')" "\<not> js_includes w (js ''sea'')" "\<not> js_includes w (js ''water'')"
    "\<not> js_includes w (js ''city'')" "\<not> js_includes w (js ''building'')" "\<not> js_includes w (js ''urban'')"
    "\<not> js_includes w (js ''mind'')" "\<not> js_includes w (js ''thought'')" "\<not> js_includes w (js ''think'')"
proof -
  have e: "\<And>k. 0x65 \<in> set k \<Longrightarrow> \<not> js_includes w k" using assms(1) js_includes_mem by blast
  have i: "\<And>k. 0x69 \<in> set k \<Longrightarrow> \<not> js_includes w k" using assms(2) js_includes_mem by blast
  have u: "\<And>k. 0x75 \<in> set k \<Longrightarrow> \<not> js_includes w k" using assms(3) js_includes_mem by blast
  show "\<not> js_includes w (js ''forest'')" by (rule e) (simp add: js_def)
  show "\<not> js_includes w (js ''tree'')" by (rule e) (simp add: js_def)
  show "\<not> js_includes w (js ''nature'')" by (rule e) (simp add: js_def)
  show "\<not> js_includes w (js ''ocean'')" by (rule e) (simp add: js_def)
  show "\<not> js_includes w (js ''sea'')" by (rule e) (simp add: js_def)
  show "\<not> js_includes w (js ''water'')" by (rule e) (simp add: js_def)
  show "\<not> js_includes w (js ''city'')" by (rule i) (simp add: js_def)
  show "\<not> js_includes w (js ''building'')" by (rule i) (simp add: js_def)
  show "\<not> js_includes w (js ''urban'')" by (rule u) (simp add: js_def)
  show "\<not> js_includes w (js ''mind'')" by (rule i) (simp add: js_def)
  show "\<not> js_includes w (js ''thought'')" by (rule u) (simp add: js_def)
  show "\<not> js_includes w (js ''think'')" by (rule i) (simp add: js_def)
qed

lemma select_loop_default:
  "\<forall>w\<in>set ws. 0x65 \<notin> set w \<and> 0x69 \<notin> set w \<and> 0x75 \<notin> set w \<Longrightarrow> select_loop tm d ws = d"
  by (induction ws) (simp_all add: no_trigger)

lemma split_ws_chars: "w \<in> set (split_ws acc s) \<Longrightarrow> set w \<subseteq> set acc \<union> set s"
proof (induction acc s rule: split_ws.induct)
  case (1 acc)
  then show ?case by simp
next
  case (2 acc c cs)
  show ?case
  proof (cases "is_space c")
    case True
    with "2.prems" have "w = rev acc \<or> w \<in> set (split_ws [] (dropWhile is_space cs))" by simp
    then show ?thesis
    proof
      assume "w = rev acc" then show ?thesis by auto
    next
      assume "w \<in> set (split_ws [] (dropWhile is_space cs))"
      from "2.IH"(1) [OF True this] show ?thesis by (auto dest: set_dropWhileD)
    qed
  next
    case False
    with "2.prems" have "w \<in> set (split_ws (c # acc) cs)" by simp
    from "2.IH"(2) [OF False this] show ?thesis by auto
  qed
qed

lemma asterisk_paragraphs_ascii: "\<forall>c\<in>set (asterisk_paragraphs k). c < 0x80"
  by (auto simp: asterisk_paragraphs_def js_def)

lemma asterisk_paragraphs_chars: "set (ascii_lower (asterisk_paragraphs k)) \<subseteq> {0x2A, 0xA, 0x78}"
proof -
  have "set (asterisk_paragraphs k) \<subseteq> {0x2A, 0xA, 0x78}"
    by (auto simp: asterisk_paragraphs_def js_def)
  moreover have "lower_unit 0x2A = 0x2A" "lower_unit 0xA = 0xA" "lower_unit 0x78 = 0x78"
    by (simp_all add: lower_unit_def)
  ultimately show ?thesis by (auto simp: ascii_lower_def)
qed

lemma selectTheme_asterisks:
  assumes "lower_case_facts lc"
  shows "selectTheme lc (asterisk_paragraphs k) = themeMap [] space"
  unfolding selectTheme_ascii [OF assms asterisk_paragraphs_ascii]
proof -
  have "\<forall>w\<in>set (split_whitespace (ascii_lower (asterisk_paragraphs k))).
      0x65 \<notin> set w \<and> 0x69 \<notin> set w \<and> 0x75 \<notin> set w"
  proof
    fix w assume "w \<in> set (split_whitespace (ascii_lower (asterisk_paragraphs k)))"
    then have "set w \<subseteq> {0x2A, 0xA, 0x78}"
      using split_ws_chars [of w "[]"] asterisk_paragraphs_chars [of k]
      by (auto simp: split_whitespace_def)
    then show "0x65 \<notin> set w \<and> 0x69 \<notin> set w \<and> 0x75 \<notin> set w" by auto
  qed
  then show "selectTheme ascii_lower (asterisk_paragraphs k) = themeMap [] space"
    by (simp add: selectTheme_def select_loop_default)
qed

lemma count_from_run:
  "0xA \<notin> set u \<Longrightarrow> count_from seen (u @ s) = count_from (seen \<or> (\<exists>c\<in>set u. \<not> is_space c)) s"
  by (induction u arbitrary: seen) (auto simp: count_from_cons)

lemma count_from_seen:
  "a \<noteq> 0xA \<Longrightarrow> count_from True (a # s) = count_from True s"
  "count_from True (0xA # 0xA # s) = 1 + count_from False s"
  "b \<noteq> 0xA \<Longrightarrow> count_from True (0xA # b # s) = count_from True s"
  "0xA \<notin> set u \<Longrightarrow> count_from True (u @ s) = count_from True s"
  "count_from True [] = 1"
  "count_from True [0xA] = 1"
  by (simp_all add: count_from_cons count_from_run)

lemma count_from_unseen:
  "count_from False (0xA # 0xA # s) = count_from False s"
  "a \<noteq> 0xA \<Longrightarrow> \<not> is_space a \<Longrightarrow> count_from False (a # s) = count_from True s"
  "a \<noteq> 0xA \<Longrightarrow> is_space a \<Longrightarrow> count_from False (a # s) = count_from False s"
  "b \<noteq> 0xA \<Longrightarrow> count_from False (0xA # b # s) = count_from False (b # s)"
  "count_from False [] = 0"
  "count_from False [0xA] = 0"
  by (simp_all add: count_from_cons is_space_newline)

lemma strip_noise_steps:
  "strip_noise [] = []"
  "strip_noise (0xFFFD # s) = strip_noise s"
  "strip_noise (0x2A # s) = strip_noise s"
  "strip_noise (0x5F # s) = strip_noise s"
  "strip_noise (0x60 # s) = strip_noise s"
  "a \<noteq> 0xFFFD \<Longrightarrow> a \<noteq> 0x2A \<Longrightarrow> a \<noteq> 0x5F \<Longrightarrow> a \<noteq> 0x60 \<Longrightarrow>
     strip_noise (a # s) = a # strip_noise s"
  by (simp_all add: strip_noise_def)

lemma strip_noise_no_newline: "0xA \<notin> set u \<Longrightarrow> 0xA \<notin> set (strip_noise u)"
  by (simp add: strip_noise_def)

lemma stripped_count_steps:
  "count_from seen (strip_noise (0xFFFD # s)) = count_from seen (strip_noise s)"
  "count_from seen (strip_noise (0x2A # s)) = count_from seen (strip_noise s)"
  "count_from seen (strip_noise (0x5F # s)) = count_from seen (strip_noise s)"
  "count_from seen (strip_noise (0x60 # s)) = count_from seen (strip_noise s)"
  "a \<noteq> 0xA \<Longrightarrow> a \<noteq> 0xFFFD \<Longrightarrow> a \<noteq> 0x2A \<Longrightarrow> a \<noteq> 0x5F \<Longrightarrow> a \<noteq> 0x60 \<Longrightarrow>
     count_from True (strip_noise (a # s)) = count_from True (strip_noise s)"
  "a \<noteq> 0xA \<Longrightarrow> a \<noteq> 0xFFFD \<Longrightarrow> a \<noteq> 0x2A \<Longrightarrow> a \<noteq> 0x5F \<Longrightarrow> a \<noteq> 0x60 \<Longrightarrow>
     \<not> is_space a \<Longrightarrow> count_from False (strip_noise (a # s)) = count_from True (strip_noise s)"
  "a \<noteq> 0xA \<Longrightarrow> a \<noteq> 0xFFFD \<Longrightarrow> a \<noteq> 0x2A \<Longrightarrow> a \<noteq> 0x5F \<Longrightarrow> a \<noteq> 0x60 \<Longrightarrow>
     is_space a \<Longrightarrow> count_from False (strip_noise (a # s)) = count_from False (strip_noise s)"
  "count_from seen (strip_noise (0xA # s)) = count_from seen (0xA # strip_noise s)"
  "0xA \<notin> set u \<Longrightarrow> count_from True (strip_noise (u @ s)) = count_from True (strip_noise s)"
  "count_from seen (strip_noise []) = (if seen then 1 else 0)"
  by (simp_all add: strip_noise_steps strip_noise_append count_from_cons count_from_seen
      strip_noise_no_newline)

lemma stripped_count_pending:
  "count_from seen (0xA # strip_noise (0xFFFD # s)) = count_from seen (0xA # strip_noise s)"
  "count_from seen (0xA # strip_noise (0x2A # s)) = count_from seen (0xA # strip_noise s)"
  "count_from seen (0xA # strip_noise (0x5F # s)) = count_from seen (0xA # strip_noise s)"
  "count_from seen (0xA # strip_noise (0x60 # s)) = count_from seen (0xA # strip_noise s)"
  "count_from True (0xA # strip_noise (0xA # s)) = 1 + count_from False (strip_noise s)"
  "count_from False (0xA # strip_noise (0xA # s)) = count_from False (strip_noise s)"
  "a \<noteq> 0xA \<Longrightarrow> a \<noteq> 0xFFFD \<Longrightarrow> a \<noteq> 0x2A \<Longrightarrow> a \<noteq> 0x5F \<Longrightarrow> a \<noteq> 0x60 \<Longrightarrow>
     count_from seen (0xA # strip_noise (a # s)) = count_from seen (strip_noise (a # s))"
  "count_from seen (0xA # strip_noise []) = (if seen then 1 else 0)"
  by (simp_all add: strip_noise_steps is_space_newline)

lemma document_count_forest:
  assumes "0xA \<notin> set q" and "0xA \<notin> set i"
  shows "count_from False (enhanced_document i q (themeMap q forest)) = 13"
  unfolding enhanced_document_def using assms
  by (simp add: js_def is_space_def glowing_star_def bullet_def black_parallelogram_def
        count_from_seen count_from_unseen del: count_from.simps)

lemma stripped_document_count_forest:
  assumes "0xA \<notin> set q" and "0xA \<notin> set i"
  shows "count_from False (strip_noise (enhanced_document i q (themeMap q forest))) = 13"
  unfolding enhanced_document_def using assms
  by (simp add: js_def is_space_def glowing_star_def bullet_def black_parallelogram_def
        stripped_count_steps stripped_count_pending del: count_from.simps)

lemma document_count_ocean:
  assumes "0xA \<notin> set q" and "0xA \<notin> set i"
  shows "count_from False (enhanced_document i q (themeMap q ocean)) = 13"
  unfolding enhanced_document_def using assms
  by (simp add: js_def is_space_def glowing_star_def bullet_def black_parallelogram_def
        count_from_seen count_from_unseen del: count_from.simps)

lemma stripped_document_count_ocean:
  assumes "0xA \<notin> set q" and "0xA \<notin> set i"
  shows "count_from False (strip_noise (enhanced_document i q (themeMap q ocean))) = 13"
  unfolding enhanced_document_def using assms
  by (simp add: js_def is_space_def glowing_star_def bullet_def black_parallelogram_def
        stripped_count_steps stripped_count_pending del: count_from.simps)

lemma document_count_city:
  assumes "0xA \<notin> set q" and "0xA \<notin> set i"
  shows "count_from False (enhanced_document i q (themeMap q city)) = 13"
  unfolding enhanced_document_def using assms
  by (simp add: js_def is_space_def glowing_star_def bullet_def black_parallelogram_def
        count_from_seen count_from_unseen del: count_from.simps)

lemma stripped_document_count_city:
  assumes "0xA \<notin> set q" and "0xA \<notin> set i"
  shows "count_from False (strip_noise (enhanced_document i q (themeMap q city))) = 13"
  unfolding enhanced_document_def using assms
  by (simp add: js_def is_space_def glowing_star_def bullet_def black_parallelogram_def
        stripped_count_steps stripped_count_pending del: count_from.simps)

lemma document_count_space:
  assumes "0xA \<notin> set q" and "0xA \<notin> set i"
  shows "count_from False (enhanced_document i q (themeMap q space)) = 13"
  unfolding enhanced_document_def using assms
  by (simp add: js_def is_space_def glowing_star_def bullet_def black_parallelogram_def
        count_from_seen count_from_unseen del: count_from.simps)

lemma stripped_document_count_space:
  assumes "0xA \<notin> set q" and "0xA \<notin> set i"
  shows "count_from False (strip_noise (enhanced_document i q (themeMap q space))) = 13"
  unfolding enhanced_document_def using assms
  by (simp add: js_def is_space_def glowing_star_def bullet_def black_parallelogram_def
        stripped_count_steps stripped_count_pending del: count_from.simps)

lemma document_count_mind:
  assumes "0xA \<notin> set q" and "0xA \<notin> set i"
  shows "count_from False (enhanced_document i q (themeMap q mind)) = 13"
  unfolding enhanced_document_def using assms
  by (simp add: js_def is_space_def glowing_star_def bullet_def black_parallelogram_def
        count_from_seen count_from_unseen del: count_from.simps)

lemma stripped_document_count_mind:
  assumes "0xA \<notin> set q" and "0xA \<notin> set i"
  shows "count_from False (strip_noise (enhanced_document i q (themeMap q mind))) = 13"
  unfolding enhanced_document_def using assms
  by (simp add: js_def is_space_def glowing_star_def bullet_def black_parallelogram_def
        stripped_count_steps stripped_count_pending del: count_from.simps)

lemma document_count:
  assumes "0xA \<notin> set q" and "0xA \<notin> set i"
  shows "count_from False (enhanced_document i q (themeMap q k)) = 13"
    and "count_from False (strip_noise (enhanced_document i q (themeMap q k))) = 13"
  using assms
  by (cases k;
      simp only: document_count_forest document_count_ocean document_count_city
        document_count_space document_count_mind stripped_document_count_forest
        stripped_document_count_ocean stripped_document_count_city
        stripped_document_count_space stripped_document_count_mind)+

text \<open>
  Claim C9, as amended. For every query, the formatter of \<open>src/unnamed/part_000\<close>
  accepts the text of the enhanced fallback composer without throwing, and its result
  has exactly two paragraphs more, the header and the footer, than that text has once
  the disallowed characters are stripped from it. When neither the query nor the
  identifier holds a newline, the composer's text has 13 paragraphs and the formatter's
  result 15.
\<close>

theorem roundtrip_paragraph_count:
  "call_enhanceResponse env (String (createEnhancedFallbackResponse lc ident q)) =
     Inr (enhanceResponse (header_draw env) (footer_draw env) (createEnhancedFallbackResponse lc ident q))
   \<and> paragraph_count (enhanceResponse h f (createEnhancedFallbackResponse lc ident q)) =
     paragraph_count (strip_noise (createEnhancedFallbackResponse lc ident q)) + 2
   \<and> (0xA \<notin> set q \<and> 0xA \<notin> set ident \<longrightarrow>
        paragraph_count (createEnhancedFallbackResponse lc ident q) = 13
        \<and> paragraph_count (enhanceResponse h f (createEnhancedFallbackResponse lc ident q)) = 15)"
proof -
  obtain k where k: "selectTheme lc q = themeMap q k" using selectTheme_range by blast
  have doc: "createEnhancedFallbackResponse lc ident q = enhanced_document ident q (themeMap q k)"
    unfolding createEnhancedFallbackResponse_def Let_def k ..
  have out: "paragraph_count (enhanceResponse h f (createEnhancedFallbackResponse lc ident q)) =
      paragraph_count (strip_noise (createEnhancedFallbackResponse lc ident q)) + 2"
    by (rule formatter_paragraph_count)
  have "paragraph_count (createEnhancedFallbackResponse lc ident q) = 13
      \<and> paragraph_count (enhanceResponse h f (createEnhancedFallbackResponse lc ident q)) = 15"
    if "0xA \<notin> set q \<and> 0xA \<notin> set ident"
  proof -
    from that have nl: "0xA \<notin> set q" "0xA \<notin> set ident" by simp_all
    have "paragraph_count (createEnhancedFallbackResponse lc ident q) = 13"
      unfolding doc paragraph_count_count_from by (rule document_count(1) [OF nl])
    moreover have "paragraph_count (strip_noise (createEnhancedFallbackResponse lc ident q)) = 13"
      unfolding doc paragraph_count_count_from by (rule document_count(2) [OF nl])
    ultimately show ?thesis using out by simp
  qed
  then show ?thesis using out by (simp add: call_enhanceResponse_def)
qed

theorem roundtrip_paragraph_count_witness:
  "paragraph_count (createEnhancedFallbackResponse ascii_lower (js ''K3J9X0A1B'') (js ''tell me about the ocean'')) = 13
   \<and> paragraph_count (enhanceResponse (draw_of 0 1) (draw_of 0 1)
        (createEnhancedFallbackResponse ascii_lower (js ''K3J9X0A1B'') (js ''tell me about the ocean''))) = 15"
proof -
  have "0xA \<notin> set (js ''tell me about the ocean'') \<and> 0xA \<notin> set (js ''K3J9X0A1B'')"
    by (simp add: js_def)
  with roundtrip_paragraph_count [of _ ascii_lower "js ''K3J9X0A1B''" "js ''tell me about the ocean''"
      "draw_of 0 1" "draw_of 0 1"]
  show ?thesis by blast
qed

text \<open>
  Claim C9 as stated fails: no bound holds for the difference between the paragraphs of
  the formatter's result and those of the composer's text, whatever the engine's
  \<open>toLowerCase\<close> does outside ASCII. A query of \<open>k\<close> paragraphs that hold an asterisk
  only puts at least \<open>k - 1\<close> paragraphs into the composer's text, and the formatter
  drops them all.
\<close>

theorem roundtrip_delta_counterexample:
  "\<not> (\<exists>lc D. lower_case_facts lc \<and> (\<forall>q. q \<noteq> [] \<longrightarrow>
        \<bar>int (paragraph_count
                (enhanceResponse (draw_of 0 1) (draw_of 0 1)
                   (createEnhancedFallbackResponse lc (js ''K3J9X0A1B'') q)))
          - int (paragraph_count (createEnhancedFallbackResponse lc (js ''K3J9X0A1B'') q))\<bar> \<le> int D))"
proof
  assume "\<exists>lc D. lower_case_facts lc \<and> (\<forall>q. q \<noteq> [] \<longrightarrow>
        \<bar>int (paragraph_count
                (enhanceResponse (draw_of 0 1) (draw_of 0 1)
                   (createEnhancedFallbackResponse lc (js ''K3J9X0A1B'') q)))
          - int (paragraph_count (createEnhancedFallbackResponse lc (js ''K3J9X0A1B'') q))\<bar> \<le> int D)"
  then obtain lc D where lc: "lower_case_facts lc"
    and D: "\<And>q. q \<noteq> [] \<Longrightarrow>
        \<bar>int (paragraph_count
                (enhanceResponse (draw_of 0 1) (draw_of 0 1)
                   (createEnhancedFallbackResponse lc (js ''K3J9X0A1B'') q)))
          - int (paragraph_count (createEnhancedFallbackResponse lc (js ''K3J9X0A1B'') q))\<bar> \<le> int D"
    by blast
  let ?doc = "createEnhancedFallbackResponse lc (js ''K3J9X0A1B'')"
  let ?out = "\<lambda>q. paragraph_count (enhanceResponse (draw_of 0 1) (draw_of 0 1) (?doc q))"
  from enhanced_document_two_holes [of "js ''K3J9X0A1B''" "themeMap [] space"]
  obtain A B C where shape:
    "\<And>q. enhanced_document (js ''K3J9X0A1B'') q (themeMap [] space) = A @ q @ B @ q @ C"
    unfolding two_holes_def by blast
  have doc: "?doc (asterisk_paragraphs k) = A @ asterisk_paragraphs k @ B @ asterisk_paragraphs k @ C" for k
    unfolding createEnhancedFallbackResponse_def Let_def selectTheme_asterisks [OF lc] by (rule shape)
  define K where "K = count_from False (strip_noise A) + count_from False (js ''x'' @ strip_noise B)
      + count_from False (js ''x'' @ strip_noise C)"
  have inp: "k \<le> paragraph_count (?doc (asterisk_paragraphs (Suc k)))" for k
    unfolding doc paragraph_count_count_from by (rule count_from_asterisks_within)
  have out: "?out (asterisk_paragraphs (Suc k)) = K + 2" for k
  proof -
    have "strip_noise (?doc (asterisk_paragraphs (Suc k))) =
        strip_noise A @ concat (replicate (Suc k) [0xA, 0xA]) @
          ((js ''x'' @ strip_noise B) @ concat (replicate (Suc k) [0xA, 0xA]) @ (js ''x'' @ strip_noise C))"
      unfolding doc by (simp only: strip_noise_append strip_noise_asterisks append_assoc)
    then have "count_from False (strip_noise (?doc (asterisk_paragraphs (Suc k)))) = K"
      by (simp only: count_from_blank_lines_within K_def add.assoc)
    then have "paragraph_count (strip_noise (?doc (asterisk_paragraphs (Suc k)))) + 2 = K + 2"
      by (simp only: paragraph_count_count_from)
    then show ?thesis by (simp only: formatter_paragraph_count)
  qed
  have ne: "asterisk_paragraphs (Suc (D + K + 3)) \<noteq> []"
    by (simp add: asterisk_paragraphs_def js_def)
  from D [OF ne] inp [of "D + K + 3"] out [of "D + K + 3"] show False by simp
qed

end
